theory Spec2Isabelle
  imports Main
begin

section \<open>JavaScript strings\<close>

text \<open>
  A JavaScript string is a sequence of UTF-16 code units; \<open>length\<close>, \<open>charAt\<close>, \<open>slice\<close>
  and the regular expressions of the source all count code units. The model keeps that:
  a string is a list of code units, each a natural number (below 65536 in every string
  JavaScript can build). Literals are written \<open>js ''...''\<close>.
\<close>

type_synonym cu = nat
type_synonym jsstring = "cu list"

definition js :: "string \<Rightarrow> jsstring" where
  "js s = map of_char s"

definition TAB :: cu where "TAB = 9"
definition LF :: cu where "LF = 10"
definition CR :: cu where "CR = 13"
definition SPACE :: cu where "SPACE = 32"

text \<open>\<open>s.charAt(i)\<close>: the one-unit string at \<open>i\<close>, or the empty string out of range.\<close>

definition charAt :: "jsstring \<Rightarrow> nat \<Rightarrow> jsstring" where
  "charAt s i = take 1 (drop i s)"

text \<open>\<open>s.slice(a, b)\<close> and \<open>s.slice(a)\<close> for indices that are not negative.\<close>

definition slice :: "jsstring \<Rightarrow> nat \<Rightarrow> nat \<Rightarrow> jsstring" where
  "slice s a b = take (b - a) (drop a s)"

definition sliceFrom :: "jsstring \<Rightarrow> nat \<Rightarrow> jsstring" where
  "sliceFrom s a = drop a s"

text \<open>
  The white space of ECMAScript (\<open>WhiteSpace\<close> and \<open>LineTerminator\<close>): what
  \<open>String.prototype.trim\<close> strips and what \<open>\s\<close> matches in a regular expression.
\<close>

definition isJsWhiteSpace :: "cu \<Rightarrow> bool" where
  "isJsWhiteSpace c =
     ((9 \<le> c \<and> c \<le> 13) \<or> c = 32 \<or> c = 160 \<or> c = 5760 \<or> (8192 \<le> c \<and> c \<le> 8202)
      \<or> c = 8232 \<or> c = 8233 \<or> c = 8239 \<or> c = 8287 \<or> c = 12288 \<or> c = 65279)"

definition trimStart :: "jsstring \<Rightarrow> jsstring" where
  "trimStart s = dropWhile isJsWhiteSpace s"

definition trimEnd :: "jsstring \<Rightarrow> jsstring" where
  "trimEnd s = rev (dropWhile isJsWhiteSpace (rev s))"

definition trim :: "jsstring \<Rightarrow> jsstring" where
  "trim s = trimEnd (trimStart s)"

section \<open>The line splitter\<close>

text \<open>
  \<open>LineSplitter\<close> has two private fields. \<open>split\<close> mutates them and returns the lines;
  the model returns the lines together with the new fields.
\<close>

record LineSplitter =
  partialLine :: jsstring
  hasPendingCR :: bool

definition newLineSplitter :: LineSplitter where
  "newLineSplitter = \<lparr>partialLine = [], hasPendingCR = False\<rparr>"

text \<open>
  The \<open>for\<close> loop of \<open>split\<close>. \<open>rest\<close> is the chunk from index \<open>i\<close> on, \<open>cur\<close> is
  \<open>chunk.slice(lineStartIndex, i)\<close> and \<open>partial\<close> the field \<open>#partialLine\<close>. The result is
  the lines pushed, the text to append to \<open>#partialLine\<close> after the loop
  (\<open>#partialLine + chunk.slice(lineStartIndex)\<close>) and whether the loop set \<open>#hasPendingCR\<close>.
\<close>

definition pushLine :: "jsstring \<Rightarrow> jsstring list \<times> jsstring \<times> bool \<Rightarrow> jsstring list \<times> jsstring \<times> bool" where
  "pushLine l r = (l # fst r, snd r)"

fun splitLoop :: "jsstring \<Rightarrow> jsstring \<Rightarrow> jsstring \<Rightarrow> jsstring list \<times> jsstring \<times> bool" where
  "splitLoop [] partial cur = ([], partial @ cur, False)"
| "splitLoop (c # rest) partial cur =
     (if c = LF then pushLine (partial @ cur) (splitLoop rest [] [])
      else if c = CR then
        (if rest \<noteq> [] \<and> hd rest = LF then pushLine (partial @ cur) (splitLoop (tl rest) [] [])
         else if rest = [] then ([partial @ cur], [], True)
         else pushLine (partial @ cur) (splitLoop rest [] []))
      else splitLoop rest partial (cur @ [c]))"

definition split :: "jsstring \<Rightarrow> bool \<Rightarrow> LineSplitter \<Rightarrow> jsstring list \<times> LineSplitter" where
  "split chunk stream sp =
     (let lineStartIndex = (if hasPendingCR sp \<and> charAt chunk 0 = [LF] then 1 else 0 :: nat);
          (ls, p, f) = splitLoop (drop lineStartIndex chunk) (partialLine sp) []
      in if \<not> stream \<and> length p > 0
         then (ls @ [p], \<lparr>partialLine = [], hasPendingCR = f\<rparr>)
         else (ls, \<lparr>partialLine = p, hasPendingCR = f\<rparr>))"

section \<open>Line classifiers of the block parser\<close>

abbreviation ch :: "char \<Rightarrow> cu" where
  "ch c \<equiv> of_char c"

definition BACKSLASH :: cu where "BACKSLASH = 92"
definition BACKTICK :: cu where "BACKTICK = 96"
definition PIPE :: cu where "PIPE = 124"
definition DQUOTE :: cu where "DQUOTE = 34"
definition SQUOTE :: cu where "SQUOTE = 39"

text \<open>\<open>s.charCodeAt(i)\<close>; \<open>None\<close> is \<open>NaN\<close>, which every comparison of the source answers with false.\<close>

definition charCodeAt :: "jsstring \<Rightarrow> nat \<Rightarrow> cu option" where
  "charCodeAt s i = (if i < length s then Some (s ! i) else None)"

definition isSpaceOrTab :: "jsstring \<Rightarrow> bool" where
  "isSpaceOrTab c = (c = [SPACE] \<or> c = [TAB])"

definition isLineEmpty :: "jsstring \<Rightarrow> bool" where
  "isLineEmpty line = (length (trim line) = 0)"

fun getFirstNonspaceIndex :: "jsstring \<Rightarrow> nat" where
  "getFirstNonspaceIndex [] = 0"
| "getFirstNonspaceIndex (c # rest) =
     (if isSpaceOrTab [c] then Suc (getFirstNonspaceIndex rest) else 0)"

text \<open>
  The loop shared by \<open>getLeadingNonspaceColumn\<close>, \<open>sliceLeadingIndent\<close>,
  \<open>parseBlockquoteLine\<close> and the two list item parsers: it walks over spaces and tabs
  from a given column, a tab advancing to the next multiple of four, and returns the
  column reached together with the rest of the line.
\<close>

fun indentLoop :: "nat \<Rightarrow> jsstring \<Rightarrow> nat \<times> jsstring" where
  "indentLoop columns [] = (columns, [])"
| "indentLoop columns (c # rest) =
     (if c = SPACE then indentLoop (columns + 1) rest
      else if c = TAB then indentLoop (columns + (4 - columns mod 4)) rest
      else (columns, c # rest))"

definition getLeadingNonspaceColumn :: "jsstring \<Rightarrow> nat" where
  "getLeadingNonspaceColumn line = fst (indentLoop 0 line)"

definition sliceLeadingIndent :: "jsstring \<Rightarrow> nat \<Rightarrow> jsstring" where
  "sliceLeadingIndent line width =
     (case indentLoop 0 line of (indent, rest) \<Rightarrow>
        if indent > width then replicate (indent - width) SPACE @ rest else rest)"

definition isIndentedCodeLine :: "jsstring \<Rightarrow> bool" where
  "isIndentedCodeLine line = (getLeadingNonspaceColumn line \<ge> 4)"

text \<open>
  The counting loop of the fence and heading parsers: the counter starts at 1 (the first
  unit is known to be the marker) and grows while the next unit is the marker.
\<close>

definition markerRun :: "cu \<Rightarrow> jsstring \<Rightarrow> nat" where
  "markerRun m line = 1 + length (takeWhile (\<lambda>c. c = m) (drop 1 line))"

text \<open>\<open>parseCodeFenceStart\<close>: indent level, number of markers, marker, info string.\<close>

definition parseCodeFenceStart :: "jsstring \<Rightarrow> (nat \<times> nat \<times> cu \<times> jsstring option) option" where
  "parseCodeFenceStart line0 =
     (let indentColumns = getLeadingNonspaceColumn line0 in
      if indentColumns > 3 then None
      else let line = trim line0 in
        if length line < 3 then None
        else if charAt line 0 \<noteq> [ch CHR ''~''] \<and> charAt line 0 \<noteq> [BACKTICK] then None
        else let marker = hd line; numOfMarkers = markerRun marker line in
          if numOfMarkers < 3 then None
          else let info = trim (sliceFrom line numOfMarkers) in
            if marker = BACKTICK \<and> BACKTICK \<in> set info then None
            else Some (indentColumns, numOfMarkers, marker, if info = [] then None else Some info))"

definition isCodeFenceEnd :: "jsstring \<Rightarrow> cu \<Rightarrow> nat \<Rightarrow> bool" where
  "isCodeFenceEnd line0 marker numOfMarkers0 =
     (if getLeadingNonspaceColumn line0 > 3 then False
      else let line = trim line0 in
        if charAt line 0 \<noteq> [marker] then False
        else let numOfMarkers = markerRun marker line in
          if numOfMarkers < numOfMarkers0 then False
          else if length line > numOfMarkers then False
          else True)"

text \<open>The \<open>for\<close> loop of \<open>isSeparator\<close> from index 1: \<open>None\<close> when it returns false.\<close>

fun separatorLoop :: "cu \<Rightarrow> jsstring \<Rightarrow> nat \<Rightarrow> nat option" where
  "separatorLoop marker [] markerCount = Some markerCount"
| "separatorLoop marker (c # rest) markerCount =
     (if isSpaceOrTab [c] then separatorLoop marker rest markerCount
      else if c \<noteq> marker then None
      else separatorLoop marker rest (markerCount + 1))"

definition isSeparator :: "jsstring \<Rightarrow> bool" where
  "isSeparator line0 =
     (if isIndentedCodeLine line0 then False
      else let line = trim line0 in
        if charAt line 0 \<noteq> [ch CHR ''-''] \<and> charAt line 0 \<noteq> [ch CHR ''_'']
           \<and> charAt line 0 \<noteq> [ch CHR ''*''] then False
        else (case separatorLoop (hd line) (drop 1 line) 1 of
                None \<Rightarrow> False
              | Some markerCount \<Rightarrow> \<not> markerCount < 3))"

text \<open>\<open>parseBlockquoteLine\<close>: the content after the marker, or \<open>None\<close>.\<close>

definition parseBlockquoteLine :: "jsstring \<Rightarrow> jsstring option" where
  "parseBlockquoteLine line =
     (if isIndentedCodeLine line then None
      else let firstNonspaceIndex = getFirstNonspaceIndex line in
        if charAt line firstNonspaceIndex \<noteq> [ch CHR ''>''] then None
        else (case indentLoop (firstNonspaceIndex + 1) (drop (firstNonspaceIndex + 1) line) of
                (numOfColumns, rest) \<Rightarrow>
                  let content = replicate (numOfColumns - firstNonspaceIndex - 1) SPACE @ rest in
                  if charAt content 0 = [SPACE] then Some (sliceFrom content 1) else Some content))"

text \<open>The loop of \<open>parseATXHeading\<close> that counts the closing \<open>#\<close> characters.\<close>

function closingHashes :: "jsstring \<Rightarrow> nat \<Rightarrow> nat \<Rightarrow> nat" where
  "closingHashes line numOfOpeningHashes numOfClosingHashes =
     (if int (length line) - int numOfClosingHashes - 1 \<le> int numOfOpeningHashes then numOfClosingHashes
      else if charAt line (length line - numOfClosingHashes - 1) \<noteq> [ch CHR ''#''] then numOfClosingHashes
      else closingHashes line numOfOpeningHashes (numOfClosingHashes + 1))"
  by pat_completeness auto
termination
  by (relation "measure (\<lambda>(line, k, n). length line - n)") auto

declare closingHashes.simps [simp del]

definition parseATXHeading :: "jsstring \<Rightarrow> (nat \<times> jsstring) option" where
  "parseATXHeading line0 =
     (if isIndentedCodeLine line0 then None
      else let line = trim line0 in
        if charAt line 0 \<noteq> [ch CHR ''#''] then None
        else let numOfOpeningHashes = markerRun (ch CHR ''#'') line in
          if numOfOpeningHashes > 6 then None
          else if numOfOpeningHashes < length line
                  \<and> charAt line numOfOpeningHashes \<noteq> [SPACE]
                  \<and> charAt line numOfOpeningHashes \<noteq> [TAB] then None
          else let numOfClosingHashes = closingHashes line numOfOpeningHashes 0;
                   contentEndIndex =
                     (if isSpaceOrTab (charAt line (length line - numOfClosingHashes - 1))
                      then length line - numOfClosingHashes else length line)
               in Some (numOfOpeningHashes, trim (slice line numOfOpeningHashes contentEndIndex)))"

definition parseSetextHeading :: "jsstring \<Rightarrow> nat option" where
  "parseSetextHeading line0 =
     (if isIndentedCodeLine line0 then None
      else let line = trim line0 in
        if charAt line 0 \<noteq> [ch CHR ''=''] \<and> charAt line 0 \<noteq> [ch CHR ''-''] then None
        else if \<not> list_all (\<lambda>c. c = hd line) line then None
        else if hd line = ch CHR ''='' then Some 1
        else Some 2)"

section \<open>Table rows\<close>

text \<open>\<open>s.split("|")\<close>: the pieces between the separators; \<open>cur\<close> is the piece being read.\<close>

fun splitOn :: "cu \<Rightarrow> jsstring \<Rightarrow> jsstring \<Rightarrow> jsstring list" where
  "splitOn sep [] cur = [cur]"
| "splitOn sep (c # rest) cur =
     (if c = sep then cur # splitOn sep rest [] else splitOn sep rest (cur @ [c]))"

text \<open>
  \<open>s.split(/(?<!\\)\|/)\<close>: a \<open>|\<close> separates unless the unit just before it in \<open>s\<close> is a
  backslash. \<open>prev\<close> is that unit (\<open>None\<close> at the start of the string).
\<close>

fun splitUnescapedPipes :: "cu option \<Rightarrow> jsstring \<Rightarrow> jsstring \<Rightarrow> jsstring list" where
  "splitUnescapedPipes prev [] cur = [cur]"
| "splitUnescapedPipes prev (c # rest) cur =
     (if c = PIPE \<and> prev \<noteq> Some BACKSLASH then cur # splitUnescapedPipes (Some c) rest []
      else splitUnescapedPipes (Some c) rest (cur @ [c]))"

text \<open>\<open>cell.replace(/\\\|/g, "|")\<close>: every backslash followed by \<open>|\<close> becomes \<open>|\<close>, left to right.\<close>

fun unescapePipes :: "jsstring \<Rightarrow> jsstring" where
  "unescapePipes (a # b # rest) =
     (if a = BACKSLASH \<and> b = PIPE then PIPE # unescapePipes rest
      else a # unescapePipes (b # rest))"
| "unescapePipes s = s"

definition parseTableRow :: "jsstring \<Rightarrow> jsstring list" where
  "parseTableRow line =
     (let cells = map trim (map unescapePipes (splitUnescapedPipes None (trim line) []));
          cells1 = (if length cells > 0 \<and> hd cells = [] then tl cells else cells);
          cells2 = (if length cells > 0 \<and> cells1 \<noteq> [] \<and> last cells1 = [] then butlast cells1 else cells1)
      in cells2)"

datatype align = AlignLeft | AlignRight | AlignCenter

text \<open>\<open>/^:?-+:?$/.test(cell)\<close>.\<close>

definition isDelimiterCell :: "jsstring \<Rightarrow> bool" where
  "isDelimiterCell cell =
     (let s1 = (if charAt cell 0 = [ch CHR '':''] then drop 1 cell else cell);
          s2 = dropWhile (\<lambda>c. c = ch CHR ''-'') s1
      in takeWhile (\<lambda>c. c = ch CHR ''-'') s1 \<noteq> [] \<and> (s2 = [] \<or> s2 = [ch CHR '':'']))"

definition cellAlignment :: "jsstring \<Rightarrow> align option" where
  "cellAlignment cell =
     (if charAt cell (length cell - 1) = [ch CHR '':''] then
        (if charAt cell 0 = [ch CHR '':''] then Some AlignCenter else Some AlignRight)
      else if charAt cell 0 = [ch CHR '':''] then Some AlignLeft
      else None)"

text \<open>
  The loop of \<open>parseTableStartLine\<close> over the delimiter cells, from index \<open>i\<close>, where \<open>n\<close> is
  their number: the alignments pushed, or \<open>None\<close> when the loop returns null.
\<close>

fun alignmentsLoop :: "nat \<Rightarrow> nat \<Rightarrow> jsstring list \<Rightarrow> align option list option" where
  "alignmentsLoop i n [] = Some []"
| "alignmentsLoop i n (c # rest) =
     (let cell = trim c in
      if cell = [] then (if i = 0 \<or> int i = int n - 1 then alignmentsLoop (i + 1) n rest else None)
      else if \<not> isDelimiterCell cell then None
      else (case alignmentsLoop (i + 1) n rest of
              None \<Rightarrow> None
            | Some as \<Rightarrow> Some (cellAlignment cell # as)))"

text \<open>The second loop of \<open>parseTableStartLine\<close>, over the delimiter line from index 1.\<close>

definition isDelimiterUnit :: "cu \<Rightarrow> bool" where
  "isDelimiterUnit c = (c = PIPE \<or> c = ch CHR '':'' \<or> c = ch CHR ''-'' \<or> isSpaceOrTab [c])"

definition parseTableStartLine ::
    "jsstring option \<Rightarrow> jsstring \<Rightarrow> (align option list \<times> jsstring list) option" where
  "parseTableStartLine firstLine0 secondLine0 =
     (case firstLine0 of
        None \<Rightarrow> None
      | Some firstLine1 \<Rightarrow>
          if isIndentedCodeLine secondLine0 then None
          else if isLineEmpty secondLine0 then None
          else let firstLine = trim firstLine1; secondLine = trim secondLine0 in
            if charAt secondLine 0 \<noteq> [PIPE] \<and> charAt secondLine 0 \<noteq> [ch CHR '':'']
               \<and> charAt secondLine 0 \<noteq> [ch CHR ''-''] then None
            else if charAt secondLine 0 = [ch CHR ''-''] \<and> isSpaceOrTab (charAt secondLine 1) then None
            else if PIPE \<notin> set firstLine then None
            else if \<not> list_all isDelimiterUnit (drop 1 secondLine) then None
            else let delimiterCells = splitOn PIPE secondLine [] in
              (case alignmentsLoop 0 (length delimiterCells) delimiterCells of
                 None \<Rightarrow> None
               | Some alignments \<Rightarrow>
                   let headerCells = parseTableRow firstLine in
                   if length headerCells = 0 \<or> length headerCells \<noteq> length alignments then None
                   else Some (alignments, headerCells)))"

text \<open>
  The padding of a body row in \<open>parseLine\<close>: \<open>cells.slice(0, numOfColumns)\<close> when the row
  is too long, \<open>[...cells, ...Array(numOfColumns - cells.length).fill("")]\<close> when too short.
\<close>

definition fitRow :: "nat \<Rightarrow> jsstring list \<Rightarrow> jsstring list" where
  "fitRow numOfColumns cells =
     (if length cells > numOfColumns then take numOfColumns cells
      else if length cells < numOfColumns then cells @ replicate (numOfColumns - length cells) []
      else cells)"

section \<open>List item openers\<close>

definition isDigit :: "cu \<Rightarrow> bool" where
  "isDigit c = (48 \<le> c \<and> c \<le> 57)"

text \<open>The digit counting loop of \<open>parseOrderedListItem\<close>; \<open>None\<close> when it returns null.\<close>

function digitsLoop :: "jsstring \<Rightarrow> nat \<Rightarrow> nat \<Rightarrow> nat option" where
  "digitsLoop line firstNonspaceIndex numOfDigits =
     (if firstNonspaceIndex + numOfDigits \<ge> length line then Some numOfDigits
      else if isDigit (line ! (firstNonspaceIndex + numOfDigits)) then
        (if numOfDigits + 1 > 9 then None
         else digitsLoop line firstNonspaceIndex (numOfDigits + 1))
      else Some numOfDigits)"
  by pat_completeness auto
termination
  by (relation "measure (\<lambda>(line, f, n). length line - (f + n))") auto

declare digitsLoop.simps [simp del]

text \<open>
  \<open>parseInt(s, 10)\<close> on a string that starts with a decimal digit: the number its leading
  digits spell. \<open>None\<close> is \<open>NaN\<close>, what \<open>parseInt\<close> gives a string that starts with no digit,
  sign or white space.
\<close>

definition parseIntDecimal :: "jsstring \<Rightarrow> nat option" where
  "parseIntDecimal s =
     (if s = [] \<or> \<not> isDigit (hd s) then None
      else Some (foldl (\<lambda>acc c. acc * 10 + (c - 48)) 0 (takeWhile isDigit s)))"

text \<open>
  The results of the list item parsers: content, number of columns, number of columns
  after the marker, and for an ordered item its value and delimiter, for an unordered
  one its marker.
\<close>

definition parseOrderedListItem :: "jsstring \<Rightarrow> (jsstring \<times> nat \<times> nat \<times> nat \<times> cu) option" where
  "parseOrderedListItem line =
     (if isIndentedCodeLine line then None
      else let firstNonspaceIndex = getFirstNonspaceIndex line in
        if (case charCodeAt line firstNonspaceIndex of
              None \<Rightarrow> False
            | Some c \<Rightarrow> c < 48 \<or> c > 57) then None
        else (case digitsLoop line firstNonspaceIndex 1 of
                None \<Rightarrow> None
              | Some numOfDigits \<Rightarrow>
                  let delimiter = charAt line (firstNonspaceIndex + numOfDigits) in
                  if delimiter \<noteq> [ch CHR ''.''] \<and> delimiter \<noteq> [ch CHR '')''] then None
                  else (case parseIntDecimal (slice line firstNonspaceIndex (firstNonspaceIndex + numOfDigits)) of
                          None \<Rightarrow> None
                        | Some v \<Rightarrow>
                            let characterIndex = firstNonspaceIndex + numOfDigits + 1 in
                            if characterIndex < length line
                               \<and> charAt line characterIndex \<noteq> [SPACE]
                               \<and> charAt line characterIndex \<noteq> [TAB] then None
                            else (case indentLoop characterIndex (drop characterIndex line) of
                                    (numOfColumns, rest) \<Rightarrow>
                                      Some (rest, numOfColumns,
                                            numOfColumns - (firstNonspaceIndex + numOfDigits + 1),
                                            v, hd delimiter)))))"

definition parseUnorderedListItem :: "jsstring \<Rightarrow> (jsstring \<times> nat \<times> nat \<times> cu) option" where
  "parseUnorderedListItem line =
     (if isIndentedCodeLine line then None
      else let firstNonspaceIndex = getFirstNonspaceIndex line;
               marker = charAt line firstNonspaceIndex in
        if marker \<noteq> [ch CHR ''*''] \<and> marker \<noteq> [ch CHR ''+''] \<and> marker \<noteq> [ch CHR ''-''] then None
        else let characterIndex = firstNonspaceIndex + 1 in
          if characterIndex < length line
             \<and> charAt line characterIndex \<noteq> [SPACE]
             \<and> charAt line characterIndex \<noteq> [TAB] then None
          else (case indentLoop characterIndex (drop characterIndex line) of
                  (numOfColumns, rest) \<Rightarrow>
                    Some (rest, numOfColumns, numOfColumns - (firstNonspaceIndex + 1), hd marker)))"

datatype listKind =
    Ordered (listStart: nat) (listDelimiter: cu)
  | Unordered (listMarker: cu)

text \<open>
  \<open>parseListItem\<close>: the kind (for an ordered item with its value and delimiter), the
  content and the number of columns.
\<close>

definition adjustListItem :: "listKind \<Rightarrow> jsstring \<Rightarrow> nat \<Rightarrow> nat \<Rightarrow> listKind \<times> jsstring \<times> nat" where
  "adjustListItem kind content0 numOfColumns0 numOfColumnsAfterMarker =
     (if numOfColumnsAfterMarker \<ge> 5 \<or> numOfColumnsAfterMarker \<le> 0 \<or> isLineEmpty content0 then
        (let content1 = replicate numOfColumnsAfterMarker SPACE @ content0;
             content = (if charAt content1 0 = [SPACE] then sliceFrom content1 1 else content1)
         in (kind, content, numOfColumns0 - numOfColumnsAfterMarker + 1))
      else (kind, content0, numOfColumns0))"

definition parseListItem :: "jsstring \<Rightarrow> (listKind \<times> jsstring \<times> nat) option" where
  "parseListItem line =
     (case parseOrderedListItem line of
        Some (content, numOfColumns, numOfColumnsAfterMarker, v, delimiter) \<Rightarrow>
          Some (adjustListItem (Ordered v delimiter) content numOfColumns numOfColumnsAfterMarker)
      | None \<Rightarrow>
          (case parseUnorderedListItem line of
             Some (content, numOfColumns, numOfColumnsAfterMarker, marker) \<Rightarrow>
               Some (adjustListItem (Unordered marker) content numOfColumns numOfColumnsAfterMarker)
           | None \<Rightarrow> None))"

section \<open>Inline nodes, the reference store and what the model takes as given\<close>

text \<open>
  The nodes of the inline parser. \<open>EmphasisDelimiter\<close> is internal to it: the array that
  \<open>parseEmphasisDelimiterNodes\<close> works on holds delimiter runs besides the public nodes.
\<close>

datatype InlineNode =
    Text (nodeText: jsstring)
  | CodeSpan jsstring
  | HardBreak
  | SoftBreak
  | HtmlTag jsstring
  | Link jsstring "jsstring option" "InlineNode list"
  | Image jsstring "jsstring option" "InlineNode list"
  | Emphasis "InlineNode list"
  | Strong "InlineNode list"
  | EmphasisDelimiter (emMarker: cu) (emContent: jsstring) (canOpen: bool) (canClose: bool) (emCount: nat)

text \<open>\<open>#referenceDefinitions\<close>: a map from the normalized label to the href and the title.\<close>

type_synonym referenceDefinitions = "jsstring \<Rightarrow> (jsstring \<times> jsstring option) option"

text \<open>
  What the model does not define but takes as a parameter, so that every theorem holds
  whatever these functions compute:
  \<^item> \<open>toLowerCase\<close>, \<open>toUpperCase\<close>: the string methods of JavaScript;
  \<^item> \<open>decodeHTMLStrict\<close>: imported from the package \<open>entities\<close>;
  \<^item> \<open>htmlStartTest i\<close>, \<open>htmlEndTest i\<close>: \<open>test\<close> of the start and end pattern of the
    \<open>i\<close>-th entry of \<open>HTML_SEQUENCES\<close> (regular expressions);
  \<^item> \<open>isUnicodePunctuationCharacter\<close>: \<open>test\<close> of the two tables \<open>UNICODE_P_REGEX\<close> and
    \<open>UNICODE_S_REGEX\<close>;
  \<^item> \<open>inlineParser\<close>: \<open>parseInline\<close>, which the block parser calls only when it converts a
    closed block to its public form.
\<close>

record env =
  toLowerCase :: "jsstring \<Rightarrow> jsstring"
  toUpperCase :: "jsstring \<Rightarrow> jsstring"
  decodeHTMLStrict :: "jsstring \<Rightarrow> jsstring"
  htmlStartTest :: "nat \<Rightarrow> jsstring \<Rightarrow> bool"
  htmlEndTest :: "nat \<Rightarrow> jsstring \<Rightarrow> bool"
  isUnicodePunctuationCharacter :: "jsstring \<Rightarrow> bool"
  inlineParser :: "jsstring \<Rightarrow> referenceDefinitions \<Rightarrow> InlineNode list"

definition isAsciiPunctuationUnit :: "cu \<Rightarrow> bool" where
  "isAsciiPunctuationUnit c =
     ((33 \<le> c \<and> c \<le> 47) \<or> (58 \<le> c \<and> c \<le> 64) \<or> (91 \<le> c \<and> c \<le> 96) \<or> (123 \<le> c \<and> c \<le> 126))"

text \<open>\<open>isAsciiPunctuationCharacter\<close> is given a string of at most one unit.\<close>

definition isAsciiPunctuationCharacter :: "jsstring \<Rightarrow> bool" where
  "isAsciiPunctuationCharacter character =
     (case character of [c] \<Rightarrow> isAsciiPunctuationUnit c | _ \<Rightarrow> False)"

definition isWhiteSpaceCharacter :: "jsstring \<Rightarrow> bool" where
  "isWhiteSpaceCharacter character =
     (case charCodeAt character 0 of
        None \<Rightarrow> False
      | Some code \<Rightarrow>
          if code \<ge> 8192 \<and> code \<le> 8202 then True
          else code = 9 \<or> code = 10 \<or> code = 11 \<or> code = 12 \<or> code = 13 \<or> code = 32
               \<or> code = 160 \<or> code = 5760 \<or> code = 8239 \<or> code = 8287 \<or> code = 12288)"

subsection \<open>\<open>normalizeReference\<close>\<close>

lemma length_dropWhile_less [termination_simp]: "length (dropWhile P xs) < Suc (length xs)"
  by (simp add: le_imp_less_Suc length_dropWhile_le)

text \<open>\<open>s.replace(/\s+/g, " ")\<close>: every maximal run of white space becomes one space.\<close>

fun collapseWhiteSpace :: "jsstring \<Rightarrow> jsstring" where
  "collapseWhiteSpace [] = []"
| "collapseWhiteSpace (c # rest) =
     (if isJsWhiteSpace c then SPACE # collapseWhiteSpace (dropWhile isJsWhiteSpace rest)
      else c # collapseWhiteSpace rest)"

definition normalizeReference :: "env \<Rightarrow> jsstring \<Rightarrow> jsstring" where
  "normalizeReference E reference = toUpperCase E (toLowerCase E (collapseWhiteSpace (trim reference)))"

subsection \<open>\<open>unescapeString\<close>\<close>

definition isAsciiLetter :: "cu \<Rightarrow> bool" where
  "isAsciiLetter c = ((65 \<le> c \<and> c \<le> 90) \<or> (97 \<le> c \<and> c \<le> 122))"

definition isHexDigit :: "cu \<Rightarrow> bool" where
  "isHexDigit c = (isDigit c \<or> (65 \<le> c \<and> c \<le> 70) \<or> (97 \<le> c \<and> c \<le> 102))"

text \<open>
  The second alternative of \<open>UNESCAPE_ALL_RE\<close>, \<open>&([a-z#][a-z0-9]{1,31});\<close> with the flag
  \<open>i\<close>, tried on the text after an \<open>&\<close>: the captured entity, if it matches. The run of
  letters and digits has to end at the \<open>;\<close>, since no shorter run is followed by one.
\<close>

definition matchEntity :: "jsstring \<Rightarrow> jsstring option" where
  "matchEntity s =
     (case s of
        [] \<Rightarrow> None
      | f # after \<Rightarrow>
          if \<not> (isAsciiLetter f \<or> f = ch CHR ''#'') then None
          else let run = takeWhile (\<lambda>c. isAsciiLetter c \<or> isDigit c) after in
            if 1 \<le> length run \<and> length run \<le> 31 \<and> charAt after (length run) = [ch CHR '';'']
            then Some (f # run) else None)"

text \<open>\<open>DIGITAL_ENTITY_TEST_RE.test(entity)\<close>: \<open>/^#((?:x[a-f0-9]{1,8}|[0-9]{1,8}))$/i\<close>.\<close>

definition isDigitalEntity :: "jsstring \<Rightarrow> bool" where
  "isDigitalEntity entity =
     (charAt entity 0 = [ch CHR ''#'']
      \<and> (((charAt entity 1 = [ch CHR ''x''] \<or> charAt entity 1 = [ch CHR ''X''])
           \<and> 1 \<le> length (drop 2 entity) \<and> length (drop 2 entity) \<le> 8
           \<and> list_all isHexDigit (drop 2 entity))
          \<or> (1 \<le> length (drop 1 entity) \<and> length (drop 1 entity) \<le> 8
              \<and> list_all isDigit (drop 1 entity))))"

definition hexDigitValue :: "cu \<Rightarrow> nat" where
  "hexDigitValue c = (if isDigit c then c - 48 else if c \<ge> 97 then c - 87 else c - 55)"

text \<open>\<open>parseInt(s, 16)\<close> and \<open>parseInt(s, 10)\<close> on a string of digits of that base.\<close>

definition parseIntHexDigits :: "jsstring \<Rightarrow> nat" where
  "parseIntHexDigits s = foldl (\<lambda>acc c. acc * 16 + hexDigitValue c) 0 s"

definition parseIntDecimalDigits :: "jsstring \<Rightarrow> nat" where
  "parseIntDecimalDigits s = foldl (\<lambda>acc c. acc * 10 + (c - 48)) 0 s"

definition isValidEntityCode :: "nat \<Rightarrow> bool" where
  "isValidEntityCode code =
     (if code \<ge> 55296 \<and> code \<le> 57343 then False
      else if code \<ge> 64976 \<and> code \<le> 65007 then False
      else if code mod 65536 = 65535 \<or> code mod 65536 = 65534 then False
      else if code \<le> 8 then False
      else if code = 11 then False
      else if code \<ge> 14 \<and> code \<le> 31 then False
      else if code \<ge> 127 \<and> code \<le> 159 then False
      else if code > 1114111 then False
      else True)"

definition fromCodePoint :: "nat \<Rightarrow> jsstring" where
  "fromCodePoint code =
     (if code > 65535 then [55296 + (code - 65536) div 1024, 56320 + (code - 65536) mod 1024]
      else [code])"

text \<open>The replacement function that \<open>unescapeString\<close> passes to \<open>replace\<close>, for an entity.\<close>

definition replaceEntity :: "env \<Rightarrow> jsstring \<Rightarrow> jsstring \<Rightarrow> jsstring" where
  "replaceEntity E match entity =
     (if charAt entity 0 = [ch CHR ''#''] \<and> isDigitalEntity entity then
        (let code = (if toLowerCase E (charAt entity 1) = [ch CHR ''x'']
                     then parseIntHexDigits (sliceFrom entity 2)
                     else parseIntDecimalDigits (sliceFrom entity 1))
         in if isValidEntityCode code then fromCodePoint code else match)
      else (let decoded = decodeHTMLStrict E match in
            if decoded \<noteq> match then decoded else match))"

text \<open>\<open>text.replace(UNESCAPE_ALL_RE, ...)\<close>, scanning from the left.\<close>

function unescapeLoop :: "env \<Rightarrow> jsstring \<Rightarrow> jsstring" where
  "unescapeLoop E [] = []"
| "unescapeLoop E (c # rest) =
     (if c = BACKSLASH \<and> isAsciiPunctuationCharacter (charAt rest 0) then
        charAt rest 0 @ unescapeLoop E (drop 1 rest)
      else if c = ch CHR ''&'' then
        (case matchEntity rest of
           Some entity \<Rightarrow>
             replaceEntity E (c # entity @ [ch CHR '';'']) entity
               @ unescapeLoop E (drop (length entity + 1) rest)
         | None \<Rightarrow> c # unescapeLoop E rest)
      else c # unescapeLoop E rest)"
  by pat_completeness auto
termination
  by (relation "measure (\<lambda>(E, s). length s)") auto

definition unescapeString :: "env \<Rightarrow> jsstring \<Rightarrow> jsstring" where
  "unescapeString E t =
     (if BACKSLASH \<notin> set t \<and> ch CHR ''&'' \<notin> set t then t else unescapeLoop E t)"

subsection \<open>\<open>parseLinkDestination\<close>\<close>

text \<open>
  The loop of the branch for a destination in angle brackets, on the input after the
  \<open><\<close>; \<open>k\<close> counts the units passed. It gives the number of units before the closing \<open>>\<close>,
  or \<open>None\<close> where the source returns null.
\<close>

function angleLoop :: "jsstring \<Rightarrow> nat \<Rightarrow> nat option" where
  "angleLoop [] k = None"
| "angleLoop (c # rest) k =
     (if c = LF then None
      else if c = ch CHR ''<'' then None
      else if c = ch CHR ''>'' then Some k
      else if c = BACKSLASH \<and> rest \<noteq> [] then angleLoop (drop 1 rest) (k + 2)
      else angleLoop rest (k + 1))"
  by pat_completeness auto
termination
  by (relation "measure (\<lambda>(s, k). length s)") auto

text \<open>
  The loop of the other branch; \<open>n\<close> is \<open>numOfLeftParentheses\<close>. It gives the number of
  units of the destination and the final \<open>n\<close>, or \<open>None\<close> where the source returns null.
\<close>

function bareLoop :: "jsstring \<Rightarrow> nat \<Rightarrow> nat \<Rightarrow> (nat \<times> nat) option" where
  "bareLoop [] n k = Some (k, n)"
| "bareLoop (c # rest) n k =
     (if c = 32 then Some (k, n)
      else if c < 32 \<or> c = 127 then Some (k, n)
      else if c = 92 \<and> rest \<noteq> [] then
        (if hd rest = 32 then Some (k, n) else bareLoop (drop 1 rest) n (k + 2))
      else if c = 40 then
        (if n + 1 > 32 then None else bareLoop rest (n + 1) (k + 1))
      else if c = 41 then
        (if n = 0 then Some (k, n) else bareLoop rest (n - 1) (k + 1))
      else bareLoop rest n (k + 1))"
  by pat_completeness auto
termination
  by (relation "measure (\<lambda>(s, n, k). length s)") auto

text \<open>
  \<open>parseLinkDestination(input, {startIndex})\<close>: href, raw and \<open>endIndex\<close>. The source reads
  \<open>input\<close> from \<open>startIndex\<close> on only.
\<close>

definition parseLinkDestination :: "env \<Rightarrow> jsstring \<Rightarrow> nat \<Rightarrow> (jsstring \<times> jsstring \<times> int) option" where
  "parseLinkDestination E input startIndex =
     (if startIndex \<ge> length input then None
      else if charAt input startIndex = [ch CHR ''<''] then
        (case angleLoop (drop (startIndex + 1) input) 0 of
           None \<Rightarrow> None
         | Some k \<Rightarrow>
             Some (unescapeString E (slice input (startIndex + 1) (startIndex + 1 + k)),
                   slice input (startIndex + 1) (startIndex + 1 + k + 1),
                   int (startIndex + 1 + k)))
      else
        (case bareLoop (drop startIndex input) 0 0 of
           None \<Rightarrow> None
         | Some (k, n) \<Rightarrow>
             if n \<noteq> 0 then None
             else Some (unescapeString E (slice input startIndex (startIndex + k)),
                        slice input startIndex (startIndex + k),
                        int (startIndex + k) - 1)))"

section \<open>Link reference definitions\<close>

text \<open>
  \<open>parseLinkReferenceDefinition\<close> reads \<open>content\<close> with a cursor and appends the next line of
  \<open>lines\<close> to \<open>content\<close> when the cursor meets a line feed. The model carries the part of
  \<open>content\<close> from the cursor on (\<open>rest\<close>) and the lines not yet appended (\<open>pending\<close>, that is
  \<open>lines.slice(nextLineIndex)\<close>): moving the cursor drops units from \<open>rest\<close>, appending a
  line appends to \<open>rest\<close>.
\<close>

lemma length_trim_le: "length (trim s) \<le> length s"
  unfolding trim_def trimEnd_def trimStart_def
  by (metis length_dropWhile_le length_rev order_trans)

definition linesBudget :: "jsstring \<Rightarrow> jsstring list \<Rightarrow> nat" where
  "linesBudget rest pending = length rest + sum_list (map (\<lambda>l. length l + 2) pending)"

lemma linesBudget_append [termination_simp]:
  "linesBudget (rest @ trim l @ [LF]) pending < Suc (linesBudget rest (l # pending))"
  using length_trim_le [of l] by (simp add: linesBudget_def)

text \<open>
  The loop that reads the label, from the unit after the opening bracket: the label, the
  rest (at the closing bracket, when the loop ended there) and the pending lines, or
  \<open>None\<close> where the source returns null.
\<close>

function labelLoop :: "jsstring \<Rightarrow> jsstring list \<Rightarrow> jsstring \<Rightarrow> (jsstring \<times> jsstring \<times> jsstring list) option" where
  "labelLoop [] pending label = Some (label, [], pending)"
| "labelLoop (c # rest) pending label =
     (if c = BACKSLASH then
        (if charAt rest 0 = [ch CHR '']''] \<or> charAt rest 0 = [ch CHR ''[''] \<or> charAt rest 0 = [BACKSLASH]
         then labelLoop (drop 1 rest) pending (label @ charAt rest 0)
         else labelLoop rest pending (label @ [c]))
      else if c = ch CHR ''['' then None
      else if c = ch CHR '']'' then Some (label, c # rest, pending)
      else if c = LF then
        (case pending of
           [] \<Rightarrow> None
         | nextLine # pending' \<Rightarrow> labelLoop (rest @ trim nextLine @ [LF]) pending' (label @ [LF]))
      else labelLoop rest pending (label @ [c]))"
  by pat_completeness auto
termination
  by (relation "measure (\<lambda>(rest, pending, label). linesBudget rest pending)")
     (auto simp: linesBudget_def intro: le_imp_less_Suc [OF length_trim_le] less_SucI)

text \<open>
  The loop that skips white space after the colon; a line feed with no line left makes
  the source return null (\<open>None\<close>).
\<close>

function skipToDestination :: "jsstring \<Rightarrow> jsstring list \<Rightarrow> (jsstring \<times> jsstring list) option" where
  "skipToDestination [] pending = Some ([], pending)"
| "skipToDestination (c # rest) pending =
     (if c = SPACE \<or> c = TAB then skipToDestination rest pending
      else if c = LF then
        (case pending of
           [] \<Rightarrow> None
         | nextLine # pending' \<Rightarrow> skipToDestination (rest @ trim nextLine @ [LF]) pending')
      else Some (c # rest, pending))"
  by pat_completeness auto
termination
  by (relation "measure (\<lambda>(rest, pending). linesBudget rest pending)")
     (auto simp: linesBudget_def intro: le_imp_less_Suc [OF length_trim_le] less_SucI)

text \<open>
  The loop that skips white space after the destination; a line feed with no line left
  ends the loop there.
\<close>

function skipToTitle :: "jsstring \<Rightarrow> jsstring list \<Rightarrow> jsstring \<times> jsstring list" where
  "skipToTitle [] pending = ([], pending)"
| "skipToTitle (c # rest) pending =
     (if c = SPACE \<or> c = TAB then skipToTitle rest pending
      else if c = LF then
        (case pending of
           [] \<Rightarrow> (c # rest, pending)
         | nextLine # pending' \<Rightarrow> skipToTitle (rest @ trim nextLine @ [LF]) pending')
      else (c # rest, pending))"
  by pat_completeness auto
termination
  by (relation "measure (\<lambda>(rest, pending). linesBudget rest pending)")
     (auto simp: linesBudget_def intro: le_imp_less_Suc [OF length_trim_le] less_SucI)

text \<open>
  The loop that reads the title, from the unit after the opening quote. It is a
  \<open>while (true)\<close> that ends only at the closing quote, at a \<open>(\<close> inside a title in
  parentheses, or at a line feed with no line left; the model gives \<open>None\<close> when it does
  not end. \<open>acc\<close> is \<open>content.slice(titleStartIndex, characterCursor)\<close>. The result is that
  slice when the loop ended at the closing quote (the cursor then moves past the quote),
  with the rest and the pending lines.
\<close>

partial_function (option) titleLoop ::
    "cu \<Rightarrow> cu \<Rightarrow> jsstring \<Rightarrow> jsstring list \<Rightarrow> jsstring \<Rightarrow> (jsstring option \<times> jsstring \<times> jsstring list) option" where
  "titleLoop openingQuote closingQuote rest pending acc =
     (if charAt rest 0 = [closingQuote] then Some (Some acc, drop 1 rest, pending)
      else if charAt rest 0 = [ch CHR ''(''] \<and> openingQuote = ch CHR ''('' then Some (None, rest, pending)
      else if charAt rest 0 = [BACKSLASH] \<and> 1 < length rest then
        titleLoop openingQuote closingQuote (drop 2 rest) pending (acc @ take 2 rest)
      else if charAt rest 0 = [LF] then
        (case pending of
           [] \<Rightarrow> Some (None, rest, pending)
         | nextLine # pending' \<Rightarrow>
             titleLoop openingQuote closingQuote (drop 1 rest @ trim nextLine @ [LF]) pending' (acc @ [LF]))
      else titleLoop openingQuote closingQuote (drop 1 rest) pending (acc @ take 1 rest))"

text \<open>
  \<open>parseLinkReferenceDefinition(lines)\<close>. The outer \<open>option\<close> is \<open>None\<close> when the call does not
  return. When it returns, the result is null (\<open>None\<close>) or the definition (label, href,
  title) with \<open>lines.slice(nextLineIndex)\<close>, the lines after the definition.
\<close>

definition parseLinkReferenceDefinition ::
    "env \<Rightarrow> jsstring list \<Rightarrow> ((jsstring \<times> jsstring \<times> jsstring option) \<times> jsstring list) option option" where
  "parseLinkReferenceDefinition E lines =
     (case lines of
        [] \<Rightarrow> Some None
      | firstLine # pending0 \<Rightarrow>
          let content = trim firstLine @ [LF] in
          if charAt content 0 \<noteq> [ch CHR ''[''] then Some None
          else (case labelLoop (drop 1 content) pending0 [] of
                  None \<Rightarrow> Some None
                | Some (label, rest1, pending1) \<Rightarrow>
                    if length label = 0 \<or> length label > 999 then Some None
                    else if length (trim label) = 0 then Some None
                    else if charAt rest1 1 \<noteq> [ch CHR '':''] then Some None
                    else (case skipToDestination (drop 2 rest1) pending1 of
                            None \<Rightarrow> Some None
                          | Some (rest2, pending2) \<Rightarrow>
                              (case parseLinkDestination E rest2 0 of
                                 None \<Rightarrow> Some None
                               | Some (href, raw, endIndex) \<Rightarrow>
                                   let rest3 = drop (nat (endIndex + 1)) rest2;
                                       destinationIsFollowedByNewline = (charAt rest3 0 = [LF]) in
                                   if \<not> destinationIsFollowedByNewline
                                      \<and> charAt rest3 0 \<noteq> [SPACE] \<and> charAt rest3 0 \<noteq> [TAB] then Some None
                                   else (case skipToTitle rest3 pending2 of
                                           (rest4, pending4) \<Rightarrow>
                                             (case (if charAt rest4 0 = [DQUOTE] \<or> charAt rest4 0 = [SQUOTE]
                                                       \<or> charAt rest4 0 = [ch CHR ''(''] then
                                                      titleLoop (hd rest4)
                                                        (if hd rest4 = ch CHR ''('' then ch CHR '')'' else hd rest4)
                                                        (drop 1 rest4) pending4 []
                                                    else Some (None, rest4, pending4)) of
                                                None \<Rightarrow> None
                                              | Some (title0, rest5, pending5) \<Rightarrow>
                                                  let title = (if charAt rest5 0 \<noteq> [LF] then None
                                                               else map_option (unescapeString E) title0) in
                                                  if title = None then
                                                    (if \<not> destinationIsFollowedByNewline then Some None
                                                     else Some (Some ((normalizeReference E label, href, None), pending2)))
                                                  else Some (Some ((normalizeReference E label, href, title), pending5))))))))"

text \<open>
  The loop that both the Setext heading branch of \<open>parseLine\<close> and
  \<open>parseReferenceLinkDefinitions\<close> run on the lines of a paragraph: it takes definitions
  off the front while there is one, and stores each unless its label is stored already.
  \<open>None\<close> when a call of \<open>parseLinkReferenceDefinition\<close> does not return.
\<close>

partial_function (option) consumeDefinitions ::
    "env \<Rightarrow> jsstring list \<Rightarrow> referenceDefinitions \<Rightarrow> (jsstring list \<times> referenceDefinitions) option" where
  "consumeDefinitions E lines refs =
     (case parseLinkReferenceDefinition E lines of
        None \<Rightarrow> None
      | Some None \<Rightarrow> Some (lines, refs)
      | Some (Some ((label, href, title), rest)) \<Rightarrow>
          consumeDefinitions E rest
            (if refs label \<noteq> None then refs else refs(label \<mapsto> (href, title))))"

section \<open>HTML block starts\<close>

text \<open>
  \<open>HTML_SEQUENCES\<close>: for each entry the index of its start pattern, the index of its end
  pattern if it has one, \<open>canInterruptParagraph\<close> and \<open>canBeInterruptedByBlankLine\<close>.
\<close>

definition HTML_SEQUENCES :: "(nat \<times> nat option \<times> bool \<times> bool) list" where
  "HTML_SEQUENCES =
     [(0, Some 0, True, False),
      (1, Some 1, True, False),
      (2, Some 2, True, False),
      (3, Some 3, True, False),
      (4, Some 4, True, False),
      (5, None, True, True),
      (6, None, False, True)]"

definition parseHTMLBlockStart :: "env \<Rightarrow> jsstring \<Rightarrow> (nat option \<times> bool \<times> bool) option" where
  "parseHTMLBlockStart E line =
     (if isIndentedCodeLine line then None
      else let firstNonspaceIndex = getFirstNonspaceIndex line in
        if charAt line firstNonspaceIndex \<noteq> [ch CHR ''<''] then None
        else (case find (\<lambda>sq. htmlStartTest E (fst sq) (sliceFrom line firstNonspaceIndex)) HTML_SEQUENCES of
                None \<Rightarrow> None
              | Some sq \<Rightarrow> Some (snd sq)))"

text \<open>\<open>node.endPattern?.test(line.trim())\<close>.\<close>

definition endPatternTest :: "env \<Rightarrow> nat option \<Rightarrow> jsstring \<Rightarrow> bool" where
  "endPatternTest E endPattern line =
     (case endPattern of None \<Rightarrow> False | Some i \<Rightarrow> htmlEndTest E i (trim line))"

section \<open>The tree of blocks\<close>

text \<open>
  An internal node has a type with the fields of that type, and \<open>isClosed\<close>,
  \<open>startLineIndex\<close> and \<open>endLineIndex\<close>; the containers (block quote, list, list item and
  the root) have children. The model gives every node a list of children, empty in a
  leaf, and keeps the root as the list of its children. The \<open>parent\<close> reference of the
  source is the position in the tree.
\<close>

datatype blockType =
    Paragraph (paragraphLines: "jsstring list")
  | Heading (headingLevel: nat) (headingContent: jsstring)
  | FencedCodeBlock (fenceIndentLevel: nat) (fenceInfo: "jsstring option") (fenceNumOfMarkers: nat)
      (fenceMarker: cu) (fenceLines: "jsstring list")
  | IndentedCodeBlock (codeLines: "jsstring list")
  | ThematicBreak
  | HtmlBlock (htmlEndPattern: "nat option") (htmlBlankInterrupts: bool) (htmlLines: "jsstring list")
  | Blockquote
  | ListBlock (listKindOf: listKind) (listNumOfColumns: nat) (listIsTight: bool)
  | ListItem
  | Table (tableAlignments: "align option list") (tableHeadCells: "jsstring list")
      (tableBodyRows: "jsstring list list")

datatype node =
  Node (ntype: blockType) (children: "node list") (isClosed: bool)
    (startLineIndex: int) (endLineIndex: int)

definition setType :: "blockType \<Rightarrow> node \<Rightarrow> node" where
  "setType t n = Node t (children n) (isClosed n) (startLineIndex n) (endLineIndex n)"

definition setChildren :: "node list \<Rightarrow> node \<Rightarrow> node" where
  "setChildren cs n = Node (ntype n) cs (isClosed n) (startLineIndex n) (endLineIndex n)"

definition setClosed :: "bool \<Rightarrow> node \<Rightarrow> node" where
  "setClosed c n = Node (ntype n) (children n) c (startLineIndex n) (endLineIndex n)"

definition setEndLineIndex :: "int \<Rightarrow> node \<Rightarrow> node" where
  "setEndLineIndex e n = Node (ntype n) (children n) (isClosed n) (startLineIndex n) e"

definition isParagraph :: "node \<Rightarrow> bool" where
  "isParagraph n = (case ntype n of Paragraph ls \<Rightarrow> True | _ \<Rightarrow> False)"

definition isTable :: "node \<Rightarrow> bool" where
  "isTable n = (case ntype n of Table a h b \<Rightarrow> True | _ \<Rightarrow> False)"

text \<open>The types \<open>"blockquote"\<close>, \<open>"list"\<close> and \<open>"list-item"\<close>.\<close>

definition isContainer :: "node \<Rightarrow> bool" where
  "isContainer n =
     (case ntype n of Blockquote \<Rightarrow> True | ListBlock k c t \<Rightarrow> True | ListItem \<Rightarrow> True | _ \<Rightarrow> False)"

lemma size_children_last [termination_simp]:
  "cs \<noteq> [] \<Longrightarrow> size_list size (children (last cs)) < size_list size cs"
proof -
  assume "cs \<noteq> []"
  then have "last cs \<in> set cs" by simp
  then have "size (last cs) \<le> size_list size cs" by (simp add: size_list_estimation')
  moreover have "size_list size (children (last cs)) < size (last cs)"
    by (cases "last cs") simp
  ultimately show ?thesis by simp
qed

text \<open>
  \<open>getDeepestOpenNodeOnRightmostPath\<close>, given the children of its argument: the deepest
  open node on the chain of last children, or \<open>None\<close> for null.
\<close>

function getDeepestOpenNodeOnRightmostPath :: "node list \<Rightarrow> node option" where
  "getDeepestOpenNodeOnRightmostPath cs =
     (if cs = [] then None
      else if isClosed (last cs) then None
      else if isContainer (last cs) then
        (case getDeepestOpenNodeOnRightmostPath (children (last cs)) of
           Some deepestOpenNode \<Rightarrow> Some deepestOpenNode
         | None \<Rightarrow> Some (last cs))
      else Some (last cs))"
  by pat_completeness auto
termination
  by (relation "measure (size_list size)") (auto simp: size_children_last)

declare getDeepestOpenNodeOnRightmostPath.simps [simp del]

text \<open>The two loops of \<open>isListTight\<close> look for a gap between two neighbours.\<close>

fun hasGap :: "node list \<Rightarrow> bool" where
  "hasGap (a # b # rest) = (endLineIndex a < startLineIndex b - 1 \<or> hasGap (b # rest))"
| "hasGap rest = False"

definition isListTight :: "node list \<Rightarrow> bool" where
  "isListTight items = (\<not> hasGap items \<and> list_all (\<lambda>item. \<not> hasGap (children item)) items)"

text \<open>
  The first loop of \<open>closeRightmostPath\<close> starts at the deepest open node and walks up
  to the parent: it closes each node on the way, sets \<open>isTight\<close> of a list and widens the
  line range of a container to its first and last child. Those nodes are the open chain
  below the parent, handled from the bottom; \<open>closeOpenChain\<close> does that for the chain
  that starts at an open node.
\<close>

function closeOpenChain :: "node \<Rightarrow> node" where
  "closeOpenChain n =
     (let cs = (if isContainer n \<and> children n \<noteq> [] \<and> \<not> isClosed (last (children n))
                then butlast (children n) @ [closeOpenChain (last (children n))]
                else children n);
          t = (case ntype n of
                 ListBlock k c tight \<Rightarrow> ListBlock k c (isListTight cs)
               | other \<Rightarrow> other)
      in Node t cs True
           (if isContainer n \<and> cs \<noteq> [] then min (startLineIndex n) (startLineIndex (hd cs))
            else startLineIndex n)
           (if isContainer n \<and> cs \<noteq> [] then max (endLineIndex n) (endLineIndex (last cs))
            else endLineIndex n))"
  by pat_completeness auto
termination
proof (relation "measure size")
  show "wf (measure size)" by simp
next
  fix n :: node
  assume a: "isContainer n \<and> children n \<noteq> [] \<and> \<not> isClosed (last (children n))"
  then have "last (children n) \<in> set (children n)" by simp
  then have "size (last (children n)) \<le> size_list size (children n)"
    by (simp add: size_list_estimation')
  moreover have "size_list size (children n) < size n" by (cases n) simp
  ultimately show "(last (children n), n) \<in> measure size" by simp
qed

declare closeOpenChain.simps [simp del]

text \<open>The second loop of \<open>closeRightmostPath\<close>, down the chain of last children.\<close>

function closeDownward :: "node list \<Rightarrow> node list" where
  "closeDownward cs =
     (if cs = [] then cs
      else if isClosed (last cs) then cs
      else if isContainer (last cs) then
        butlast cs @ [setChildren (closeDownward (children (last cs))) (setClosed True (last cs))]
      else butlast cs @ [setClosed True (last cs)])"
  by pat_completeness auto
termination
  by (relation "measure (size_list size)") (auto simp: size_children_last)

declare closeDownward.simps [simp del]

text \<open>\<open>closeRightmostPath(parent)\<close>, on the children of the parent.\<close>

definition closeRightmostPath :: "node list \<Rightarrow> node list" where
  "closeRightmostPath cs =
     closeDownward
       (if cs \<noteq> [] \<and> \<not> isClosed (last cs) then butlast cs @ [closeOpenChain (last cs)] else cs)"

text \<open>\<open>addNode(node)\<close>, on the children of \<open>node.parent\<close>.\<close>

definition addNode :: "node list \<Rightarrow> node \<Rightarrow> node list" where
  "addNode cs n = closeRightmostPath cs @ [n]"

text \<open>
  Assignments to the node that \<open>getDeepestOpenNodeOnRightmostPath\<close> returned: \<open>f\<close> is applied
  to that node, in its place in the tree.
\<close>

function updateDeepestOpenNode :: "(node \<Rightarrow> node) \<Rightarrow> node list \<Rightarrow> node list" where
  "updateDeepestOpenNode f cs =
     (if cs = [] then cs
      else if isClosed (last cs) then cs
      else if isContainer (last cs)
              \<and> getDeepestOpenNodeOnRightmostPath (children (last cs)) \<noteq> None then
        butlast cs @ [setChildren (updateDeepestOpenNode f (children (last cs))) (last cs)]
      else butlast cs @ [f (last cs)])"
  by pat_completeness auto
termination
  by (relation "measure (\<lambda>(f, cs). size_list size cs)") (auto simp: size_children_last)

declare updateDeepestOpenNode.simps [simp del]

section \<open>\<open>parseLine\<close>: opening new blocks\<close>

text \<open>
  The second loop of \<open>parseLine\<close> tries the block starts in a fixed order on the line, in
  the container \<open>currentContainer\<close>. The model has one definition for each start, in the
  order of the source from the last to the first, every one handing the line to the next
  when it does not apply. \<open>cs\<close> are the children of \<open>currentContainer\<close>, \<open>li\<close> is \<open>lineIndex\<close>.
\<close>

fun joinLines :: "jsstring list \<Rightarrow> jsstring" where
  "joinLines [] = []"
| "joinLines [l] = l"
| "joinLines (l # ls) = l @ LF # joinLines ls"

text \<open>\<open>p.endLineIndex = lineIndex; p.lines.push(line)\<close> on a paragraph \<open>p\<close>.\<close>

definition appendParagraphLine :: "int \<Rightarrow> jsstring \<Rightarrow> node \<Rightarrow> node" where
  "appendParagraphLine li line p =
     setEndLineIndex li (setType (Paragraph (paragraphLines (ntype p) @ [line])) p)"

text \<open>The branch "Paragraph": lazy continuation of the deepest open paragraph, or a new one.\<close>

definition openParagraph :: "int \<Rightarrow> node list \<Rightarrow> jsstring \<Rightarrow> node list" where
  "openParagraph li cs line =
     (case getDeepestOpenNodeOnRightmostPath cs of
        Some latestOpenNode \<Rightarrow>
          if isParagraph latestOpenNode then updateDeepestOpenNode (appendParagraphLine li line) cs
          else addNode cs (Node (Paragraph [line]) [] False li li)
      | None \<Rightarrow> addNode cs (Node (Paragraph [line]) [] False li li))"

text \<open>The branch "Table continuation".\<close>

definition appendTableRow :: "int \<Rightarrow> jsstring \<Rightarrow> node \<Rightarrow> node" where
  "appendTableRow li line t =
     setEndLineIndex li
       (setType (Table (tableAlignments (ntype t)) (tableHeadCells (ntype t))
                   (tableBodyRows (ntype t)
                      @ [fitRow (length (tableHeadCells (ntype t))) (parseTableRow line)])) t)"

definition openTableRow :: "int \<Rightarrow> node list \<Rightarrow> jsstring \<Rightarrow> node list" where
  "openTableRow li cs line =
     (if cs \<noteq> [] \<and> isTable (last cs) \<and> \<not> isClosed (last cs)
      then butlast cs @ [appendTableRow li line (last cs)]
      else openParagraph li cs line)"

definition openBlankLine :: "int \<Rightarrow> node list \<Rightarrow> jsstring \<Rightarrow> node list" where
  "openBlankLine li cs line =
     (if isLineEmpty line then closeRightmostPath cs else openTableRow li cs line)"

definition openIndentedCode :: "int \<Rightarrow> node list \<Rightarrow> jsstring \<Rightarrow> node list" where
  "openIndentedCode li cs line =
     (if isIndentedCodeLine line
         \<and> (case getDeepestOpenNodeOnRightmostPath cs of
               None \<Rightarrow> True
             | Some latestOpenNode \<Rightarrow> \<not> isParagraph latestOpenNode)
      then addNode cs (Node (IndentedCodeBlock [sliceLeadingIndent line 4]) [] False li li)
      else openBlankLine li cs line)"

text \<open>
  What one round of the loop leaves: the line is done (\<open>Finished\<close>, with the children of
  the container and the reference store), or a block quote or a list item was opened and
  the loop goes on inside it with the content. \<open>EnterBlockquote cs content\<close>: the new
  block quote comes after \<open>cs\<close>. \<open>EnterListItem cs l content\<close>: the new item is the next child
  of the list \<open>l\<close>, which comes after \<open>cs\<close>.
\<close>

datatype openResult =
    Finished "node list" referenceDefinitions
  | EnterBlockquote "node list" jsstring
  | EnterListItem "node list" node jsstring

text \<open>The test whether the new item goes into the open list that is the last child.\<close>

definition continuesList :: "listKind \<Rightarrow> node \<Rightarrow> bool" where
  "continuesList k lastChild =
     (case ntype lastChild of
        ListBlock k' c t \<Rightarrow>
          \<not> isClosed lastChild
          \<and> (case k of
                Ordered v d \<Rightarrow> (case k' of Ordered s d' \<Rightarrow> d' = d | Unordered m' \<Rightarrow> False)
              | Unordered m \<Rightarrow> (case k' of Ordered s d' \<Rightarrow> False | Unordered m' \<Rightarrow> m' = m))
      | _ \<Rightarrow> False)"

definition setNumOfColumns :: "nat \<Rightarrow> node \<Rightarrow> node" where
  "setNumOfColumns c l = setType (ListBlock (listKindOf (ntype l)) c (listIsTight (ntype l))) l"

text \<open>The branch "List".\<close>

definition openListItem :: "int \<Rightarrow> node list \<Rightarrow> jsstring \<Rightarrow> referenceDefinitions \<Rightarrow> openResult" where
  "openListItem li cs line refs =
     (case parseListItem line of
        None \<Rightarrow> Finished (openIndentedCode li cs line) refs
      | Some (k, content, columns) \<Rightarrow>
          if cs \<noteq> [] \<and> isParagraph (last cs) \<and> \<not> isClosed (last cs)
             \<and> (isLineEmpty content \<or> (case k of Ordered v d \<Rightarrow> v \<noteq> 1 | Unordered m \<Rightarrow> False))
          then Finished (butlast cs @ [appendParagraphLine li line (last cs)]) refs
          else if cs \<noteq> [] \<and> continuesList k (last cs)
          then EnterListItem (butlast cs)
                 (setNumOfColumns columns
                    (setChildren (closeRightmostPath (children (last cs))) (last cs)))
                 content
          else EnterListItem (closeRightmostPath cs)
                 (Node (ListBlock k columns True) [] False li li) content)"

text \<open>The branch "Thematic break".\<close>

definition openThematicBreak :: "int \<Rightarrow> node list \<Rightarrow> jsstring \<Rightarrow> referenceDefinitions \<Rightarrow> openResult" where
  "openThematicBreak li cs line refs =
     (if isSeparator line then Finished (addNode cs (Node ThematicBreak [] True li li)) refs
      else openListItem li cs line refs)"

text \<open>
  The branches "Table" and "Setext heading", tried when the last child is an open
  paragraph. \<open>None\<close> when the loop over the definitions does not return.
\<close>

definition openTableOrSetext ::
    "env \<Rightarrow> int \<Rightarrow> node list \<Rightarrow> jsstring \<Rightarrow> referenceDefinitions \<Rightarrow> openResult option" where
  "openTableOrSetext E li cs line refs =
     (if cs \<noteq> [] \<and> isParagraph (last cs) \<and> \<not> isClosed (last cs) then
        (let lastChild = last cs; ls = paragraphLines (ntype lastChild) in
         case parseTableStartLine (if ls = [] then None else Some (last ls)) line of
           Some (als, cells) \<Rightarrow>
             Some (Finished
                     (addNode (if length (butlast ls) = 0 then butlast cs
                               else butlast cs @ [setType (Paragraph (butlast ls)) lastChild])
                        (Node (Table als cells []) [] False li li))
                     refs)
         | None \<Rightarrow>
             (case parseSetextHeading line of
                Some level \<Rightarrow>
                  (case consumeDefinitions E ls refs of
                     None \<Rightarrow> None
                   | Some (remaining, refs') \<Rightarrow>
                       if length remaining > 0 then
                         Some (Finished
                                 (addNode (butlast cs)
                                    (Node (Heading level (trim (joinLines remaining))) [] True
                                       (startLineIndex lastChild - (int (length ls) - int (length remaining)))
                                       li))
                                 refs')
                       else Some (Finished (butlast cs @ [setType (Paragraph (ls @ [line])) lastChild]) refs'))
              | None \<Rightarrow> Some (openThematicBreak li cs line refs)))
      else Some (openThematicBreak li cs line refs))"

text \<open>The branch "HTML block".\<close>

definition openHtmlBlock ::
    "env \<Rightarrow> int \<Rightarrow> node list \<Rightarrow> jsstring \<Rightarrow> referenceDefinitions \<Rightarrow> openResult option" where
  "openHtmlBlock E li cs line refs =
     (case parseHTMLBlockStart E line of
        Some (endp, canInterruptParagraph, blank) \<Rightarrow>
          if canInterruptParagraph
             \<or> (case getDeepestOpenNodeOnRightmostPath cs of
                   None \<Rightarrow> True
                 | Some deepestOpenNode \<Rightarrow> \<not> isParagraph deepestOpenNode)
          then Some (Finished
                       (addNode cs (Node (HtmlBlock endp blank [line]) []
                                      (endPatternTest E endp line) li li))
                       refs)
          else openTableOrSetext E li cs line refs
      | None \<Rightarrow> openTableOrSetext E li cs line refs)"

text \<open>The branch "Fenced code block".\<close>

definition openFencedCode ::
    "env \<Rightarrow> int \<Rightarrow> node list \<Rightarrow> jsstring \<Rightarrow> referenceDefinitions \<Rightarrow> openResult option" where
  "openFencedCode E li cs line refs =
     (case parseCodeFenceStart line of
        Some (indent, markers, m, infoString) \<Rightarrow>
          Some (Finished (addNode cs (Node (FencedCodeBlock indent infoString markers m []) [] False li li)) refs)
      | None \<Rightarrow> openHtmlBlock E li cs line refs)"

text \<open>The branch "ATX heading".\<close>

definition openATXHeading ::
    "env \<Rightarrow> int \<Rightarrow> node list \<Rightarrow> jsstring \<Rightarrow> referenceDefinitions \<Rightarrow> openResult option" where
  "openATXHeading E li cs line refs =
     (case parseATXHeading line of
        Some (level, c) \<Rightarrow> Some (Finished (addNode cs (Node (Heading level c) [] True li li)) refs)
      | None \<Rightarrow> openFencedCode E li cs line refs)"

text \<open>One round of the loop, from the branch "Blockquote" on.\<close>

definition openStep ::
    "env \<Rightarrow> int \<Rightarrow> node list \<Rightarrow> jsstring \<Rightarrow> referenceDefinitions \<Rightarrow> openResult option" where
  "openStep E li cs line refs =
     (case parseBlockquoteLine line of
        Some content \<Rightarrow> Some (EnterBlockquote (closeRightmostPath cs) content)
      | None \<Rightarrow> openATXHeading E li cs line refs)"

text \<open>
  A block quote or a list item that the loop opens takes its marker off the line, so the
  number of units of the line that are neither space nor tab goes down on the way in:
  the loop ends.
\<close>

definition lineWeight :: "jsstring \<Rightarrow> nat" where
  "lineWeight s = length (filter (\<lambda>c. c \<noteq> SPACE \<and> c \<noteq> TAB) s)"

lemma charAt_single: "charAt s i = [c] \<longleftrightarrow> i < length s \<and> s ! i = c"
proof (cases "i < length s")
  case True
  then have "drop i s = s ! i # drop (Suc i) s" by (simp add: Cons_nth_drop_Suc)
  then show ?thesis using True by (simp add: charAt_def)
next
  case False
  then show ?thesis by (simp add: charAt_def)
qed

lemma lineWeight_indentLoop: "lineWeight (snd (indentLoop col s)) = lineWeight s"
  by (induction col s rule: indentLoop.induct) (simp_all add: lineWeight_def TAB_def SPACE_def)

lemma lineWeight_append: "lineWeight (a @ b) = lineWeight a + lineWeight b"
  by (simp add: lineWeight_def)

lemma lineWeight_drop_Suc:
  assumes "charAt s i = [c]" "c \<noteq> SPACE" "c \<noteq> TAB"
  shows "lineWeight (drop (Suc i) s) < lineWeight s"
proof -
  from assms(1) have i: "i < length s" and c: "s ! i = c"
    by (simp_all add: charAt_single)
  have "s = take i s @ [s ! i] @ drop (Suc i) s" using i by (simp add: id_take_nth_drop)
  then have "lineWeight s = lineWeight (take i s) + lineWeight [s ! i] + lineWeight (drop (Suc i) s)"
    by (metis lineWeight_append add.assoc)
  then show ?thesis using assms c by (simp add: lineWeight_def)
qed

lemma lineWeight_spaces [simp]: "lineWeight (replicate k SPACE @ s) = lineWeight s"
  by (simp add: lineWeight_def)

lemma lineWeight_drop_space [simp]:
  "charAt s 0 = [SPACE] \<Longrightarrow> lineWeight (sliceFrom s (Suc 0)) = lineWeight s"
  by (cases s) (simp_all add: charAt_def sliceFrom_def lineWeight_def)

lemma parseBlockquoteLine_weight:
  assumes "parseBlockquoteLine line = Some c"
  shows "lineWeight c < lineWeight line"
proof -
  define i where "i = getFirstNonspaceIndex line"
  define r where "r = indentLoop (i + 1) (drop (i + 1) line)"
  define content where "content = replicate (fst r - i - 1) SPACE @ snd r"
  from assms have gt: "charAt line i = [ch CHR ''>'']"
    and c: "c = (if charAt content 0 = [SPACE] then sliceFrom content 1 else content)"
    unfolding parseBlockquoteLine_def Let_def i_def r_def content_def
    by (auto split: if_splits prod.splits)
  have "lineWeight (drop (Suc i) line) < lineWeight line"
    using gt by (rule lineWeight_drop_Suc) (simp_all add: SPACE_def TAB_def)
  moreover have "lineWeight content = lineWeight (drop (Suc i) line)"
    unfolding content_def r_def by (simp add: lineWeight_spaces lineWeight_indentLoop)
  moreover have "lineWeight c = lineWeight content"
    unfolding c by (simp add: lineWeight_drop_space)
  ultimately show ?thesis by simp
qed

lemma adjustListItem_weight:
  "adjustListItem k c n a = (k', c', n') \<Longrightarrow> lineWeight c' = lineWeight c"
  unfolding adjustListItem_def Let_def
  by (auto split: if_splits simp: lineWeight_spaces lineWeight_drop_space)

lemma parseOrderedListItem_weight:
  assumes "parseOrderedListItem line = Some (c, n, a, v, d)"
  shows "lineWeight c < lineWeight line"
proof -
  define i where "i = getFirstNonspaceIndex line"
  from assms obtain nd where
    d: "charAt line (i + nd) = [ch CHR ''.''] \<or> charAt line (i + nd) = [ch CHR '')'']"
    and c: "c = snd (indentLoop (i + nd + 1) (drop (i + nd + 1) line))"
    unfolding parseOrderedListItem_def Let_def i_def
    by (auto split: if_splits prod.splits option.splits)
  from d have "lineWeight (drop (Suc (i + nd)) line) < lineWeight line"
    by (auto intro!: lineWeight_drop_Suc simp: SPACE_def TAB_def)
  then show ?thesis unfolding c by (simp add: lineWeight_indentLoop)
qed

lemma parseUnorderedListItem_weight:
  assumes "parseUnorderedListItem line = Some (c, n, a, m)"
  shows "lineWeight c < lineWeight line"
proof -
  define i where "i = getFirstNonspaceIndex line"
  from assms have
    d: "charAt line i = [ch CHR ''*''] \<or> charAt line i = [ch CHR ''+''] \<or> charAt line i = [ch CHR ''-'']"
    and c: "c = snd (indentLoop (i + 1) (drop (i + 1) line))"
    unfolding parseUnorderedListItem_def Let_def i_def
    by (auto split: if_splits prod.splits option.splits)
  from d have "lineWeight (drop (Suc i) line) < lineWeight line"
    by (auto intro!: lineWeight_drop_Suc simp: SPACE_def TAB_def)
  then show ?thesis unfolding c by (simp add: lineWeight_indentLoop)
qed

lemma parseListItem_weight:
  assumes "parseListItem line = Some (k, c, n)"
  shows "lineWeight c < lineWeight line"
  using assms unfolding parseListItem_def
  by (auto split: option.splits prod.splits
           dest!: adjustListItem_weight parseOrderedListItem_weight parseUnorderedListItem_weight)

lemma openListItem_enter:
  "openListItem li cs line refs = EnterListItem cs1 l c \<Longrightarrow> \<exists>k n. parseListItem line = Some (k, c, n)"
  "openListItem li cs line refs \<noteq> EnterBlockquote cs1 c"
  unfolding openListItem_def by (auto split: option.splits if_splits)

lemma openThematicBreak_enter:
  "openThematicBreak li cs line refs = EnterListItem cs1 l c \<Longrightarrow> \<exists>k n. parseListItem line = Some (k, c, n)"
  "openThematicBreak li cs line refs \<noteq> EnterBlockquote cs1 c"
  unfolding openThematicBreak_def by (auto split: if_splits dest: openListItem_enter(1) simp: openListItem_enter(2))

lemma openTableOrSetext_enter:
  "openTableOrSetext E li cs line refs = Some (EnterListItem cs1 l c) \<Longrightarrow> \<exists>k n. parseListItem line = Some (k, c, n)"
  "openTableOrSetext E li cs line refs \<noteq> Some (EnterBlockquote cs1 c)"
  unfolding openTableOrSetext_def Let_def
  by (auto split: option.splits if_splits dest: openThematicBreak_enter(1) simp: openThematicBreak_enter(2))

lemma openHtmlBlock_enter:
  "openHtmlBlock E li cs line refs = Some (EnterListItem cs1 l c) \<Longrightarrow> \<exists>k n. parseListItem line = Some (k, c, n)"
  "openHtmlBlock E li cs line refs \<noteq> Some (EnterBlockquote cs1 c)"
  unfolding openHtmlBlock_def
  by (auto split: option.splits if_splits dest: openTableOrSetext_enter(1) simp: openTableOrSetext_enter(2))

lemma openStep_enter:
  "openStep E li cs line refs = Some (EnterListItem cs1 l c) \<Longrightarrow> \<exists>k n. parseListItem line = Some (k, c, n)"
  "openStep E li cs line refs = Some (EnterBlockquote cs1 c) \<Longrightarrow> parseBlockquoteLine line = Some c"
  unfolding openStep_def openATXHeading_def openFencedCode_def
  by (auto split: option.splits if_splits dest: openHtmlBlock_enter(1) simp: openHtmlBlock_enter(2))

text \<open>
  The second loop of \<open>parseLine\<close>. A new block quote or list item starts without
  children, and the loop goes on in it with the content of the line; what it leaves there
  are the children of the new container. \<open>None\<close> when the loop does not return.
\<close>

function openBlocks ::
    "env \<Rightarrow> int \<Rightarrow> node list \<Rightarrow> jsstring \<Rightarrow> referenceDefinitions \<Rightarrow> (node list \<times> referenceDefinitions) option" where
  "openBlocks E li cs line refs =
     (case openStep E li cs line refs of
        None \<Rightarrow> None
      | Some (Finished cs' refs') \<Rightarrow> Some (cs', refs')
      | Some (EnterBlockquote cs1 c) \<Rightarrow>
          (case openBlocks E li [] c refs of
             None \<Rightarrow> None
           | Some (kids, refs') \<Rightarrow> Some (cs1 @ [Node Blockquote kids False li li], refs'))
      | Some (EnterListItem cs1 l c) \<Rightarrow>
          (case openBlocks E li [] c refs of
             None \<Rightarrow> None
           | Some (kids, refs') \<Rightarrow>
               Some (cs1 @ [setChildren (children l @ [Node ListItem kids False li li]) l], refs')))"
  by pat_completeness auto
termination
  by (relation "measure (\<lambda>(E, li, cs, line, refs). lineWeight line)")
     (auto dest: openStep_enter parseBlockquoteLine_weight parseListItem_weight)

declare openBlocks.simps [simp del]

section \<open>\<open>parseLine\<close>: the open blocks that the line continues\<close>

lemma size_children: "size_list size (children b) < size b"
  by (cases b) simp

lemma size_children_last_last:
  "cs \<noteq> [] \<Longrightarrow> children (last cs) \<noteq> []
   \<Longrightarrow> size_list size (children (last (children (last cs)))) < size_list size cs"
  using size_children_last [of cs] size_children_last [of "children (last cs)"] by simp

text \<open>
  The first loop of \<open>parseLine\<close> goes down the chain of open last children as long as the
  line continues them; where it stops, the second loop takes over with what is left of
  the line. \<open>cs\<close> are the children of \<open>lastMatchedNode\<close>. Going into a block quote or a list
  item is the recursive call on its children; what the rest of \<open>parseLine\<close> does there is
  put back in place. An open last child that is a heading, a thematic break or a list
  item (the types of the source leave none of them open in that place) meets no branch
  of the loop, which would turn forever: \<open>None\<close>.
\<close>

function descendOpenBlocks ::
    "env \<Rightarrow> int \<Rightarrow> node list \<Rightarrow> jsstring \<Rightarrow> referenceDefinitions \<Rightarrow> (node list \<times> referenceDefinitions) option" where
  "descendOpenBlocks E li cs line refs =
     (if cs = [] then openBlocks E li cs line refs
      else if isClosed (last cs) then openBlocks E li cs line refs
      else
        (case ntype (last cs) of
           Blockquote \<Rightarrow>
             (case parseBlockquoteLine line of
                Some c \<Rightarrow>
                  (case descendOpenBlocks E li (children (last cs)) c refs of
                     None \<Rightarrow> None
                   | Some (kids, refs') \<Rightarrow>
                       Some (butlast cs @ [setChildren kids (setEndLineIndex li (last cs))], refs'))
              | None \<Rightarrow> openBlocks E li cs line refs)
         | ListBlock k columns tight \<Rightarrow>
             (if children (last cs) = [] then openBlocks E li cs line refs
              else if isClosed (last (children (last cs))) then openBlocks E li cs line refs
              else if isLineEmpty line then
                (if children (last (children (last cs))) = [] then
                   Some (butlast cs @ [setChildren (closeRightmostPath (children (last cs))) (last cs)], refs)
                 else
                   (case descendOpenBlocks E li (children (last (children (last cs)))) line refs of
                      None \<Rightarrow> None
                    | Some (kids, refs') \<Rightarrow>
                        Some (butlast cs
                                @ [setChildren
                                     (butlast (children (last cs))
                                        @ [setChildren kids (last (children (last cs)))])
                                     (last cs)],
                              refs')))
              else if getLeadingNonspaceColumn line \<ge> columns then
                (case descendOpenBlocks E li (children (last (children (last cs))))
                        (sliceLeadingIndent line columns) refs of
                   None \<Rightarrow> None
                 | Some (kids, refs') \<Rightarrow>
                     Some (butlast cs
                             @ [setChildren
                                  (butlast (children (last cs))
                                     @ [setChildren kids (last (children (last cs)))])
                                  (last cs)],
                           refs'))
              else openBlocks E li cs line refs)
         | FencedCodeBlock indent infoString markers m ls \<Rightarrow>
             if isCodeFenceEnd line m markers then
               Some (butlast cs @ [setClosed True (setEndLineIndex li (last cs))], refs)
             else
               Some (butlast cs
                       @ [setType (FencedCodeBlock indent infoString markers m
                                     (ls @ [sliceLeadingIndent line indent]))
                            (setEndLineIndex li (last cs))],
                     refs)
         | IndentedCodeBlock ls \<Rightarrow>
             if isIndentedCodeLine line then
               Some (butlast cs
                       @ [setType (IndentedCodeBlock (ls @ [sliceLeadingIndent line 4]))
                            (setEndLineIndex li (last cs))],
                     refs)
             else if isLineEmpty line then
               Some (butlast cs
                       @ [setType (IndentedCodeBlock (ls @ [[]])) (setEndLineIndex li (last cs))],
                     refs)
             else openBlocks E li (butlast cs @ [setClosed True (last cs)]) line refs
         | HtmlBlock endp blank ls \<Rightarrow>
             if blank \<and> isLineEmpty line then Some (butlast cs @ [setClosed True (last cs)], refs)
             else
               Some (butlast cs
                       @ [setClosed (endPatternTest E endp line)
                            (setType (HtmlBlock endp blank (ls @ [line]))
                               (setEndLineIndex li (last cs)))],
                     refs)
         | Paragraph ls \<Rightarrow>
             if isLineEmpty line then Some (butlast cs @ [setClosed True (last cs)], refs)
             else openBlocks E li cs line refs
         | Table als cells rows \<Rightarrow>
             if isLineEmpty line then Some (butlast cs @ [setClosed True (last cs)], refs)
             else openBlocks E li cs line refs
         | Heading level c \<Rightarrow> None
         | ThematicBreak \<Rightarrow> None
         | ListItem \<Rightarrow> None))"
  by pat_completeness auto
termination
  by (relation "measure (\<lambda>(E, li, cs, line, refs). size_list size cs)")
     (auto simp: size_children_last size_children_last_last)

declare descendOpenBlocks.simps [simp del]

text \<open>\<open>parseLine(line)\<close> with \<open>lineIndex = li\<close>, on the children of the root.\<close>

definition parseLine ::
    "env \<Rightarrow> int \<Rightarrow> node list \<Rightarrow> jsstring \<Rightarrow> referenceDefinitions \<Rightarrow> (node list \<times> referenceDefinitions) option" where
  "parseLine E li rootChildren line refs = descendOpenBlocks E li rootChildren line refs"

section \<open>The sweep for link reference definitions\<close>

text \<open>
  \<open>parseReferenceLinkDefinitions(parent)\<close>, on the children of the parent: the loop goes
  over the closed blocks at the front and stops at the first open one. A paragraph loses
  the definitions at its front, and is removed when no line is left.
\<close>

function parseReferenceLinkDefinitions ::
    "env \<Rightarrow> node list \<Rightarrow> referenceDefinitions \<Rightarrow> (node list \<times> referenceDefinitions) option"
  and parseReferenceLinkDefinitionsItems ::
    "env \<Rightarrow> node list \<Rightarrow> referenceDefinitions \<Rightarrow> (node list \<times> referenceDefinitions) option" where
  "parseReferenceLinkDefinitions E [] refs = Some ([], refs)"
| "parseReferenceLinkDefinitions E (block # rest) refs =
     (if \<not> isClosed block then Some (block # rest, refs)
      else
        (case ntype block of
           Paragraph ls \<Rightarrow>
             (case consumeDefinitions E ls refs of
                None \<Rightarrow> None
              | Some (ls', refs1) \<Rightarrow>
                  (case parseReferenceLinkDefinitions E rest refs1 of
                     None \<Rightarrow> None
                   | Some (rest', refs2) \<Rightarrow>
                       Some ((if length ls' > 0 then [setType (Paragraph ls') block] else []) @ rest', refs2)))
         | Blockquote \<Rightarrow>
             (case parseReferenceLinkDefinitions E (children block) refs of
                None \<Rightarrow> None
              | Some (kids, refs1) \<Rightarrow>
                  (case parseReferenceLinkDefinitions E rest refs1 of
                     None \<Rightarrow> None
                   | Some (rest', refs2) \<Rightarrow> Some (setChildren kids block # rest', refs2)))
         | ListBlock k columns tight \<Rightarrow>
             (case parseReferenceLinkDefinitionsItems E (children block) refs of
                None \<Rightarrow> None
              | Some (items, refs1) \<Rightarrow>
                  (case parseReferenceLinkDefinitions E rest refs1 of
                     None \<Rightarrow> None
                   | Some (rest', refs2) \<Rightarrow> Some (setChildren items block # rest', refs2)))
         | _ \<Rightarrow>
             (case parseReferenceLinkDefinitions E rest refs of
                None \<Rightarrow> None
              | Some (rest', refs2) \<Rightarrow> Some (block # rest', refs2))))"
| "parseReferenceLinkDefinitionsItems E [] refs = Some ([], refs)"
| "parseReferenceLinkDefinitionsItems E (item # items) refs =
     (case parseReferenceLinkDefinitions E (children item) refs of
        None \<Rightarrow> None
      | Some (kids, refs1) \<Rightarrow>
          (case parseReferenceLinkDefinitionsItems E items refs1 of
             None \<Rightarrow> None
           | Some (items', refs2) \<Rightarrow> Some (setChildren kids item # items', refs2)))"
  by pat_completeness auto
termination
  by (relation "measure (\<lambda>x. case x of Inl (E, cs, refs) \<Rightarrow> size_list size cs
                                     | Inr (E, cs, refs) \<Rightarrow> size_list size cs)")
     (auto simp: size_children less_Suc_eq trans_less_add1)

section \<open>The inline parser: delimiter runs\<close>

definition getNumOfConsecutiveCharacters :: "jsstring \<Rightarrow> cu list \<Rightarrow> nat \<Rightarrow> nat" where
  "getNumOfConsecutiveCharacters input characters startIndex =
     length (takeWhile (\<lambda>c. c \<in> set characters) (drop startIndex input))"

text \<open>
  The branch of the loop of \<open>parseInline\<close> for a marker \<open>*\<close> or \<open>_\<close> at \<open>characterCursor\<close>.
  \<open>input[i] ?? " "\<close> is the unit at \<open>i\<close>, or a space when \<open>i\<close> is outside the input.
\<close>

definition previousCharacter :: "jsstring \<Rightarrow> nat \<Rightarrow> jsstring" where
  "previousCharacter input characterCursor =
     (if characterCursor \<ge> 1 \<and> characterCursor - 1 < length input
      then [input ! (characterCursor - 1)] else [SPACE])"

definition nextCharacter :: "jsstring \<Rightarrow> nat \<Rightarrow> nat \<Rightarrow> jsstring" where
  "nextCharacter input characterCursor numOfMarkers =
     (if characterCursor + numOfMarkers < length input
      then [input ! (characterCursor + numOfMarkers)] else [SPACE])"

definition isPunctuation :: "env \<Rightarrow> jsstring \<Rightarrow> bool" where
  "isPunctuation E character =
     (isAsciiPunctuationCharacter character \<or> isUnicodePunctuationCharacter E character)"

definition isLeftFlanking :: "env \<Rightarrow> jsstring \<Rightarrow> jsstring \<Rightarrow> bool" where
  "isLeftFlanking E previous next =
     (\<not> isWhiteSpaceCharacter next
      \<and> (\<not> isPunctuation E next \<or> isWhiteSpaceCharacter previous \<or> isPunctuation E previous))"

definition isRightFlanking :: "env \<Rightarrow> jsstring \<Rightarrow> jsstring \<Rightarrow> bool" where
  "isRightFlanking E previous next =
     (\<not> isWhiteSpaceCharacter previous
      \<and> (\<not> isPunctuation E previous \<or> isWhiteSpaceCharacter next \<or> isPunctuation E next))"

text \<open>The delimiter node that the branch pushes.\<close>

definition delimiterRun :: "env \<Rightarrow> jsstring \<Rightarrow> nat \<Rightarrow> InlineNode" where
  "delimiterRun E input characterCursor =
     (let m = input ! characterCursor;
          numOfMarkers = getNumOfConsecutiveCharacters input [m] characterCursor;
          previous = previousCharacter input characterCursor;
          next = nextCharacter input characterCursor numOfMarkers;
          leftFlanking = isLeftFlanking E previous next;
          rightFlanking = isRightFlanking E previous next
      in if m = ch CHR ''*'' then
           EmphasisDelimiter m (replicate numOfMarkers m) leftFlanking rightFlanking numOfMarkers
         else
           EmphasisDelimiter m (replicate numOfMarkers m)
             (leftFlanking \<and> (\<not> rightFlanking \<or> isPunctuation E previous))
             (rightFlanking \<and> (\<not> leftFlanking \<or> isPunctuation E next))
             numOfMarkers)"

section \<open>The inline parser: matching an opener to a closer\<close>

definition isEmphasisDelimiter :: "InlineNode \<Rightarrow> bool" where
  "isEmphasisDelimiter n = (case n of EmphasisDelimiter m c co cc k \<Rightarrow> True | _ \<Rightarrow> False)"

text \<open>The condition under which \<open>findMatchingOpenerForCloser\<close> skips a candidate opener.\<close>

definition violatesRuleOfThree :: "InlineNode \<Rightarrow> InlineNode \<Rightarrow> bool" where
  "violatesRuleOfThree opener closer =
     ((canClose opener \<or> canOpen closer)
      \<and> (emCount opener + emCount closer) mod 3 = 0
      \<and> (emCount opener mod 3 \<noteq> 0 \<or> emCount closer mod 3 \<noteq> 0))"

text \<open>
  The loop of \<open>findMatchingOpenerForCloser\<close>, from \<open>i = k - 1\<close> down to 0; at the call \<open>k\<close>
  is the index of the closer.
\<close>

fun findMatchingOpenerForCloser :: "InlineNode list \<Rightarrow> InlineNode \<Rightarrow> nat \<Rightarrow> (InlineNode \<times> nat) option" where
  "findMatchingOpenerForCloser nodes closer 0 = None"
| "findMatchingOpenerForCloser nodes closer (Suc i) =
     (if \<not> (i < length nodes \<and> isEmphasisDelimiter (nodes ! i)) then
        findMatchingOpenerForCloser nodes closer i
      else if \<not> canOpen (nodes ! i) then findMatchingOpenerForCloser nodes closer i
      else if emMarker (nodes ! i) \<noteq> emMarker closer then findMatchingOpenerForCloser nodes closer i
      else if violatesRuleOfThree (nodes ! i) closer then findMatchingOpenerForCloser nodes closer i
      else Some (nodes ! i, i))"

section \<open>The public blocks and \<open>parse\<close>\<close>

datatype BlockNode =
    TableNode "(align option \<times> InlineNode list) list" "(align option \<times> InlineNode list) list list"
  | ThematicBreakNode
  | CodeBlockNode "jsstring option" jsstring
  | HeadingNode nat "InlineNode list"
  | ParagraphNode "InlineNode list"
  | BlockquoteNode "BlockNode list"
  | ListNode listKind bool "BlockNode list list"
  | HtmlBlockNode jsstring

text \<open>
  The two loops of the branch \<open>"indented-code-block"\<close> of
  \<open>convertInternalBlockToPublicBlock\<close>, which move \<open>startIndex\<close> and \<open>endIndex\<close> over empty
  lines.
\<close>

function skipEmptyFromStart :: "jsstring list \<Rightarrow> int \<Rightarrow> int \<Rightarrow> int" where
  "skipEmptyFromStart ls startIndex endIndex =
     (if startIndex < endIndex \<and> 0 \<le> startIndex \<and> nat startIndex < length ls
         \<and> isLineEmpty (ls ! nat startIndex)
      then skipEmptyFromStart ls (startIndex + 1) endIndex
      else startIndex)"
  by pat_completeness auto
termination
  by (relation "measure (\<lambda>(ls, s, e). nat (e - s))") auto

function skipEmptyFromEnd :: "jsstring list \<Rightarrow> int \<Rightarrow> int \<Rightarrow> int" where
  "skipEmptyFromEnd ls startIndex endIndex =
     (if endIndex > startIndex \<and> 0 \<le> endIndex \<and> nat endIndex < length ls
         \<and> isLineEmpty (ls ! nat endIndex)
      then skipEmptyFromEnd ls startIndex (endIndex - 1)
      else endIndex)"
  by pat_completeness auto
termination
  by (relation "measure (\<lambda>(ls, s, e). nat (e - s))") auto

declare skipEmptyFromStart.simps [simp del]
declare skipEmptyFromEnd.simps [simp del]

text \<open>
  \<open>convertInternalBlockToPublicBlock\<close> has no case for a list item, which the source
  converts only as a child of its list (the branch \<open>"list"\<close>); the model leaves the value
  at a list item unspecified.
\<close>

definition indentedCodeContent :: "jsstring list \<Rightarrow> jsstring" where
  "indentedCodeContent ls =
     (let startIndex = skipEmptyFromStart ls 0 (int (length ls) - 1);
          endIndex = skipEmptyFromEnd ls startIndex (int (length ls) - 1)
      in joinLines (take (nat (endIndex + 1) - nat startIndex) (drop (nat startIndex) ls)) @ [LF])"

text \<open>
  The cells of a table row with their alignments: \<open>block.alignments[index]\<close> is undefined
  (\<open>None\<close>) past the end of the alignments.
\<close>

definition tableCells ::
    "env \<Rightarrow> referenceDefinitions \<Rightarrow> align option list \<Rightarrow> jsstring list \<Rightarrow> (align option \<times> InlineNode list) list" where
  "tableCells E refs als cells =
     map (\<lambda>(index, cell). (if index < length als then als ! index else None, inlineParser E cell refs))
       (zip [0 ..< length cells] cells)"

lemma size_item_child [termination_simp]:
  "item \<in> set cs \<Longrightarrow> child \<in> set (children item) \<Longrightarrow> size child < Suc (size_list size cs)"
proof -
  assume a: "item \<in> set cs" "child \<in> set (children item)"
  then have "size child \<le> size_list size (children item)" by (simp add: size_list_estimation')
  also have "\<dots> < size item" by (rule size_children)
  also have "\<dots> \<le> size_list size cs" using a(1) by (simp add: size_list_estimation')
  finally show ?thesis by simp
qed

fun convertInternalBlockToPublicBlock :: "env \<Rightarrow> referenceDefinitions \<Rightarrow> node \<Rightarrow> BlockNode" where
  "convertInternalBlockToPublicBlock E refs (Node t cs closed s e) =
     (case t of
        Blockquote \<Rightarrow> BlockquoteNode (map (convertInternalBlockToPublicBlock E refs) cs)
      | Heading level c \<Rightarrow> HeadingNode level (inlineParser E c refs)
      | Paragraph ls \<Rightarrow> ParagraphNode (inlineParser E (trim (joinLines ls)) refs)
      | ThematicBreak \<Rightarrow> ThematicBreakNode
      | FencedCodeBlock indent infoString markers m ls \<Rightarrow>
          CodeBlockNode infoString (if length ls > 0 then joinLines ls @ [LF] else [])
      | IndentedCodeBlock ls \<Rightarrow> CodeBlockNode None (indentedCodeContent ls)
      | HtmlBlock endp blank ls \<Rightarrow> HtmlBlockNode (joinLines ls)
      | ListBlock k columns tight \<Rightarrow>
          ListNode k tight
            (map (\<lambda>item. map (convertInternalBlockToPublicBlock E refs) (children item)) cs)
      | ListItem \<Rightarrow> undefined
      | Table als cells rows \<Rightarrow>
          TableNode (tableCells E refs als cells) (map (tableCells E refs als) rows))"

text \<open>
  The parser: the line splitter, the children of the root, \<open>nextLineIndex\<close>,
  \<open>nextNodeIndex\<close> and the reference store.
\<close>

record MarkdownParser =
  splitter :: LineSplitter
  root :: "node list"
  nextLineIndex :: int
  nextNodeIndex :: nat
  referenceDefinitions :: referenceDefinitions

definition newMarkdownParser :: MarkdownParser where
  "newMarkdownParser =
     \<lparr>splitter = newLineSplitter, root = [], nextLineIndex = 0, nextNodeIndex = 0,
      referenceDefinitions = Map.empty\<rparr>"

text \<open>\<open>parse\<close> replaces every NUL of a line by U+FFFD before it parses the line.\<close>

definition replaceNul :: "jsstring \<Rightarrow> jsstring" where
  "replaceNul line = map (\<lambda>c. if c = 0 then 65533 else c) line"

text \<open>The loop of \<open>parse\<close> over the lines.\<close>

fun parseLines ::
    "env \<Rightarrow> jsstring list \<Rightarrow> node list \<Rightarrow> int \<Rightarrow> referenceDefinitions
     \<Rightarrow> (node list \<times> int \<times> referenceDefinitions) option" where
  "parseLines E [] cs li refs = Some (cs, li, refs)"
| "parseLines E (line # ls) cs li refs =
     (case parseLine E li cs (replaceNul line) refs of
        None \<Rightarrow> None
      | Some (cs', refs') \<Rightarrow> parseLines E ls cs' (li + 1) refs')"

text \<open>
  The last loop of \<open>parse\<close>: the closed root children from \<open>nextNodeIndex\<close> up to the first
  open one.
\<close>

definition closedFrom :: "nat \<Rightarrow> node list \<Rightarrow> node list" where
  "closedFrom n cs = takeWhile isClosed (drop n cs)"

text \<open>
  \<open>parse(input, {stream})\<close>: the internal nodes it converts and the parser after the
  call, or \<open>None\<close> when the call does not return. \<open>parse\<close> is \<open>parseInternal\<close> followed by the
  conversion of those nodes, each with the reference store as the call leaves it.
\<close>

definition parseInternal :: "env \<Rightarrow> jsstring \<Rightarrow> bool \<Rightarrow> MarkdownParser \<Rightarrow> (node list \<times> MarkdownParser) option" where
  "parseInternal E input stream p =
     (case split input stream (splitter p) of
        (ls, sp) \<Rightarrow>
          (case parseLines E ls (root p) (nextLineIndex p) (referenceDefinitions p) of
             None \<Rightarrow> None
           | Some (cs1, li, refs1) \<Rightarrow>
               (case parseReferenceLinkDefinitions E
                       (if \<not> stream then closeRightmostPath cs1 else cs1) refs1 of
                  None \<Rightarrow> None
                | Some (cs2, refs2) \<Rightarrow>
                    Some (closedFrom (nextNodeIndex p) cs2,
                          \<lparr>splitter = sp, root = cs2, nextLineIndex = li,
                           nextNodeIndex = nextNodeIndex p + length (closedFrom (nextNodeIndex p) cs2),
                           referenceDefinitions = refs2\<rparr>))))"

definition parse :: "env \<Rightarrow> jsstring \<Rightarrow> bool \<Rightarrow> MarkdownParser \<Rightarrow> (BlockNode list \<times> MarkdownParser) option" where
  "parse E input stream p =
     (case parseInternal E input stream p of
        None \<Rightarrow> None
      | Some (nodes, p') \<Rightarrow>
          Some (map (convertInternalBlockToPublicBlock E (referenceDefinitions p')) nodes, p'))"

section \<open>Properties of the line splitter\<close>





section \<open>Properties of the inline parser\<close>

lemma findMatchingOpenerForCloser_Some:
  "findMatchingOpenerForCloser nodes closer k = Some (n, i) \<Longrightarrow>
     i < k \<and> i < length nodes \<and> n = nodes ! i \<and> isEmphasisDelimiter n \<and> canOpen n
     \<and> emMarker n = emMarker closer \<and> \<not> violatesRuleOfThree n closer"
  by (induction k) (auto split: if_splits)

text \<open>
  Claim C3, as the code has it. A candidate opener is skipped by the rule of three when
  one of the two runs can both open and close (the opener can also close, or the closer
  can also open), the sum of the two run lengths is a multiple of 3 and the two lengths
  are not both multiples of 3: no pair that \<open>findMatchingOpenerForCloser\<close> returns breaks
  that rule, and a candidate that breaks it is passed over. When the opener cannot close
  and the closer cannot open, the nearest candidate (a delimiter run that can open, with
  the marker of the closer) is returned whatever the lengths are.
\<close>

theorem rule_of_three_either_side:
  "(\<forall>nodes closer k n i.
      findMatchingOpenerForCloser nodes closer k = Some (n, i) \<longrightarrow>
      (canClose n \<or> canOpen closer) \<longrightarrow> 3 dvd (emCount n + emCount closer) \<longrightarrow>
      3 dvd emCount n \<and> 3 dvd emCount closer)
   \<and> (\<forall>nodes closer i.
        i < length nodes \<and> isEmphasisDelimiter (nodes ! i) \<and> canOpen (nodes ! i)
        \<and> emMarker (nodes ! i) = emMarker closer
        \<and> (canClose (nodes ! i) \<or> canOpen closer)
        \<and> 3 dvd (emCount (nodes ! i) + emCount closer)
        \<and> \<not> (3 dvd emCount (nodes ! i) \<and> 3 dvd emCount closer) \<longrightarrow>
        findMatchingOpenerForCloser nodes closer (Suc i) = findMatchingOpenerForCloser nodes closer i)
   \<and> (\<forall>nodes closer i.
        i < length nodes \<and> isEmphasisDelimiter (nodes ! i) \<and> canOpen (nodes ! i)
        \<and> emMarker (nodes ! i) = emMarker closer
        \<and> \<not> canClose (nodes ! i) \<and> \<not> canOpen closer \<longrightarrow>
        findMatchingOpenerForCloser nodes closer (Suc i) = Some (nodes ! i, i))"
proof (intro conjI allI impI)
  fix nodes closer k n i
  assume "findMatchingOpenerForCloser nodes closer k = Some (n, i)"
    and "canClose n \<or> canOpen closer" and "3 dvd (emCount n + emCount closer)"
  then show "3 dvd emCount n" "3 dvd emCount closer"
    by (auto dest!: findMatchingOpenerForCloser_Some simp: violatesRuleOfThree_def dvd_eq_mod_eq_0)
next
  fix nodes closer i
  assume "i < length nodes \<and> isEmphasisDelimiter (nodes ! i) \<and> canOpen (nodes ! i)
        \<and> emMarker (nodes ! i) = emMarker closer
        \<and> (canClose (nodes ! i) \<or> canOpen closer)
        \<and> 3 dvd (emCount (nodes ! i) + emCount closer)
        \<and> \<not> (3 dvd emCount (nodes ! i) \<and> 3 dvd emCount closer)"
  then show "findMatchingOpenerForCloser nodes closer (Suc i) = findMatchingOpenerForCloser nodes closer i"
    by (auto simp: violatesRuleOfThree_def dvd_eq_mod_eq_0)
next
  fix nodes closer i
  assume "i < length nodes \<and> isEmphasisDelimiter (nodes ! i) \<and> canOpen (nodes ! i)
        \<and> emMarker (nodes ! i) = emMarker closer
        \<and> \<not> canClose (nodes ! i) \<and> \<not> canOpen closer"
  then show "findMatchingOpenerForCloser nodes closer (Suc i) = Some (nodes ! i, i)"
    by (simp add: violatesRuleOfThree_def)
qed

theorem rule_of_three_either_side_witness:
  "findMatchingOpenerForCloser
     [EmphasisDelimiter 42 [42] True True 1, Text [98], EmphasisDelimiter 42 [42, 42] False True 2]
     (EmphasisDelimiter 42 [42, 42] False True 2) (Suc 0)
   = findMatchingOpenerForCloser
     [EmphasisDelimiter 42 [42] True True 1, Text [98], EmphasisDelimiter 42 [42, 42] False True 2]
     (EmphasisDelimiter 42 [42, 42] False True 2) 0
   \<and> findMatchingOpenerForCloser
     [EmphasisDelimiter 42 [42] True False 1, Text [98], EmphasisDelimiter 42 [42, 42] False True 2]
     (EmphasisDelimiter 42 [42, 42] False True 2) (Suc 0)
   = Some (EmphasisDelimiter 42 [42] True False 1, 0)
   \<and> 3 dvd emCount (EmphasisDelimiter 42 [42, 42, 42] True True 3)
   \<and> 3 dvd emCount (EmphasisDelimiter 42 [42, 42, 42] True True 3)"
proof -
  note T = rule_of_three_either_side
  let ?o = "EmphasisDelimiter 42 [42] True True 1"
  let ?o2 = "EmphasisDelimiter 42 [42] True False 1"
  let ?o3 = "EmphasisDelimiter 42 [42, 42, 42] True True 3"
  let ?c = "EmphasisDelimiter 42 [42, 42] False True 2"
  have 1: "findMatchingOpenerForCloser [?o, Text [98], ?c] ?c (Suc 0)
           = findMatchingOpenerForCloser [?o, Text [98], ?c] ?c 0"
    using T [THEN conjunct2, THEN conjunct1, rule_format, of 0 "[?o, Text [98], ?c]" ?c]
    by (simp add: isEmphasisDelimiter_def numeral_3_eq_3)
  have 2: "findMatchingOpenerForCloser [?o2, Text [98], ?c] ?c (Suc 0) = Some (?o2, 0)"
    using T [THEN conjunct2, THEN conjunct2, rule_format, of 0 "[?o2, Text [98], ?c]" ?c]
    by (simp add: isEmphasisDelimiter_def)
  have 3: "3 dvd emCount ?o3 \<and> 3 dvd emCount ?o3"
    using T [THEN conjunct1, rule_format, of "[?o3, ?o3]" ?o3 "Suc 0" ?o3 0]
    by (simp add: isEmphasisDelimiter_def violatesRuleOfThree_def)
  show ?thesis using 1 2 3 by simp
qed

text \<open>
  The claim as stated lets the rule apply only when both runs can both open and close.
  In \<open>a*b**\<close> the closer \<open>**\<close> cannot open, the opener \<open>*\<close> can open and close, and the
  lengths add up to 3: the opener is not matched, while a closer of length 1 with the
  same flags is matched to it.
\<close>

theorem rule_of_three_both_sides_counterexample:
  "\<not> (canOpen (EmphasisDelimiter 42 [42, 42] False True 2)
       \<and> canClose (EmphasisDelimiter 42 [42, 42] False True 2))
   \<and> canOpen (EmphasisDelimiter 42 [42] True True 1)
   \<and> emMarker (EmphasisDelimiter 42 [42] True True 1) = emMarker (EmphasisDelimiter 42 [42, 42] False True 2)
   \<and> findMatchingOpenerForCloser
        [EmphasisDelimiter 42 [42] True True 1, Text [98], EmphasisDelimiter 42 [42, 42] False True 2]
        (EmphasisDelimiter 42 [42, 42] False True 2) 2 = None
   \<and> findMatchingOpenerForCloser
        [EmphasisDelimiter 42 [42] True True 1, Text [98], EmphasisDelimiter 42 [42] False True 1]
        (EmphasisDelimiter 42 [42] False True 1) 2 = Some (EmphasisDelimiter 42 [42] True True 1, 0)"
  by (simp add: numeral_2_eq_2 isEmphasisDelimiter_def violatesRuleOfThree_def)

lemma isWhiteSpaceCharacter_space: "isWhiteSpaceCharacter [SPACE]"
  by (simp add: isWhiteSpaceCharacter_def charCodeAt_def SPACE_def)

text \<open>
  Claim C9. In the branch of \<open>parseInline\<close> that classifies a run of \<open>*\<close> or \<open>_\<close>, a
  neighbour outside the input is a space: the unit before index 0 and the unit after a
  run that reaches the end of the input are both read as a space, which is white space.
  So a run at index 0 is never right-flanking and its delimiter node cannot close, and a
  run that ends at the end of the input is never left-flanking and its node cannot open.
\<close>

theorem delimiter_run_at_input_boundary:
  "(\<forall>input. previousCharacter input 0 = [SPACE])
   \<and> (\<forall>input characterCursor n.
         characterCursor + n \<ge> length input \<longrightarrow> nextCharacter input characterCursor n = [SPACE])
   \<and> isWhiteSpaceCharacter [SPACE]
   \<and> (\<forall>E input next. \<not> isRightFlanking E (previousCharacter input 0) next)
   \<and> (\<forall>E input. \<not> canClose (delimiterRun E input 0))
   \<and> (\<forall>E input characterCursor previous.
         characterCursor + getNumOfConsecutiveCharacters input [input ! characterCursor] characterCursor
           \<ge> length input \<longrightarrow>
         \<not> isLeftFlanking E previous
              (nextCharacter input characterCursor
                 (getNumOfConsecutiveCharacters input [input ! characterCursor] characterCursor))
         \<and> \<not> canOpen (delimiterRun E input characterCursor))"
proof -
  have p: "previousCharacter input 0 = [SPACE]" for input
    by (simp add: previousCharacter_def)
  have n: "nextCharacter input c k = [SPACE]" if "c + k \<ge> length input" for input c k
    using that by (simp add: nextCharacter_def)
  have r: "\<not> isRightFlanking E (previousCharacter input 0) next" for E input "next"
    by (simp add: isRightFlanking_def p isWhiteSpaceCharacter_space)
  have l: "\<not> isLeftFlanking E previous (nextCharacter input c k)" if "c + k \<ge> length input"
    for E previous input c k
    by (simp add: isLeftFlanking_def n [OF that] isWhiteSpaceCharacter_space)
  have c: "\<not> canClose (delimiterRun E input 0)" for E input
    using r [of E input] by (simp add: delimiterRun_def Let_def)
  have d: "\<not> canOpen (delimiterRun E input c)"
    if "c + getNumOfConsecutiveCharacters input [input ! c] c \<ge> length input" for E input c
  proof -
    define k where "k = getNumOfConsecutiveCharacters input [input ! c] c"
    have "\<not> isLeftFlanking E (previousCharacter input c) (nextCharacter input c k)"
      using l that unfolding k_def by blast
    then show ?thesis
      unfolding delimiterRun_def Let_def k_def [symmetric] by (cases "input ! c = 42") simp_all
  qed
  show ?thesis using p n r l c d isWhiteSpaceCharacter_space by blast
qed

theorem delimiter_run_at_input_boundary_witness:
  "nextCharacter (js ''a*'') 1 1 = [SPACE]
   \<and> (\<forall>E. \<not> canClose (delimiterRun E (js ''*a'') 0))
   \<and> (\<forall>E. \<not> canOpen (delimiterRun E (js ''a*'') 1))"
proof -
  note T = delimiter_run_at_input_boundary
  have g: "1 + getNumOfConsecutiveCharacters (js ''a*'') [js ''a*'' ! 1] 1 \<ge> length (js ''a*'')"
    by (simp add: js_def getNumOfConsecutiveCharacters_def)
  have 1: "nextCharacter (js ''a*'') 1 1 = [SPACE]"
    using T [THEN conjunct2, THEN conjunct1, rule_format, of "js ''a*''" 1 1] by (simp add: js_def)
  have 2: "\<not> canClose (delimiterRun E (js ''*a'') 0)" for E
    using T by blast
  have 3: "\<not> canOpen (delimiterRun E (js ''a*'') 1)" for E
    using T g by blast
  show ?thesis using 1 2 3 by simp
qed

section \<open>Properties of table rows\<close>

text \<open>
  The words of the specification for a table row, to compare \<open>parseTableRow\<close> with:
  \<open>joinWith\<close> puts the separator back between the pieces of a split, \<open>isUnescapedPipe s i\<close>
  says that the unit of \<open>s\<close> at \<open>i\<close> is a \<open>|\<close> with no backslash just before it,
  \<open>dropLeadingEmpty\<close> and \<open>dropTrailingEmpty\<close> drop one empty cell at that end.
\<close>

fun joinWith :: "cu \<Rightarrow> jsstring list \<Rightarrow> jsstring" where
  "joinWith sep [] = []"
| "joinWith sep [p] = p"
| "joinWith sep (p # ps) = p @ sep # joinWith sep ps"

definition isUnescapedPipe :: "jsstring \<Rightarrow> nat \<Rightarrow> bool" where
  "isUnescapedPipe s i = (i < length s \<and> s ! i = PIPE \<and> (i = 0 \<or> s ! (i - 1) \<noteq> BACKSLASH))"

definition dropLeadingEmpty :: "jsstring list \<Rightarrow> jsstring list" where
  "dropLeadingEmpty cells = (case cells of [] \<Rightarrow> [] | c # rest \<Rightarrow> if c = [] then rest else cells)"

definition dropTrailingEmpty :: "jsstring list \<Rightarrow> jsstring list" where
  "dropTrailingEmpty cells = rev (dropLeadingEmpty (rev cells))"

lemma splitUnescapedPipes_nonempty: "splitUnescapedPipes prev s cur \<noteq> []"
  by (induction s arbitrary: prev cur) auto

lemma joinWith_Cons: "ps \<noteq> [] \<Longrightarrow> joinWith sep (p # ps) = p @ sep # joinWith sep ps"
  by (cases ps) auto

lemma splitUnescapedPipes_join: "joinWith PIPE (splitUnescapedPipes prev s cur) = cur @ s"
  by (induction s arbitrary: prev cur) (auto simp: joinWith_Cons splitUnescapedPipes_nonempty)

definition lastUnit :: "jsstring \<Rightarrow> cu option" where
  "lastUnit s = (if s = [] then None else Some (last s))"

lemma splitUnescapedPipes_pieces:
  assumes "\<forall>j. \<not> isUnescapedPipe cur j" "cur \<noteq> [] \<longrightarrow> prev = Some (last cur)"
    "cur = [] \<longrightarrow> prev \<noteq> Some BACKSLASH"
  shows "\<forall>p\<in>set (splitUnescapedPipes prev s cur). \<forall>j. \<not> isUnescapedPipe p j"
  using assms
proof (induction s arbitrary: prev cur)
  case Nil
  then show ?case by simp
next
  case (Cons c s)
  show ?case
  proof (cases "c = PIPE \<and> prev \<noteq> Some BACKSLASH")
    case True
    have "\<forall>p\<in>set (splitUnescapedPipes (Some c) s []). \<forall>j. \<not> isUnescapedPipe p j"
      by (rule Cons.IH) (use True in \<open>auto simp: isUnescapedPipe_def PIPE_def BACKSLASH_def\<close>)
    then show ?thesis using True Cons.prems by simp
  next
    case False
    have n: "\<forall>j. \<not> isUnescapedPipe (cur @ [c]) j"
    proof
      fix j
      show "\<not> isUnescapedPipe (cur @ [c]) j"
      proof (cases "j < length cur")
        case True
        then show ?thesis using Cons.prems(1) [rule_format, of j]
          by (auto simp: isUnescapedPipe_def nth_append)
      next
        case nl: False
        show ?thesis
        proof (cases "j = length cur")
          case True
          then show ?thesis using False Cons.prems(2,3)
            by (cases "cur = []") (auto simp: isUnescapedPipe_def nth_append last_conv_nth)
        next
          case False
          then show ?thesis using nl by (simp add: isUnescapedPipe_def)
        qed
      qed
    qed
    have "\<forall>p\<in>set (splitUnescapedPipes (Some c) s (cur @ [c])). \<forall>j. \<not> isUnescapedPipe p j"
      by (rule Cons.IH) (use n in auto)
    then show ?thesis using False by auto
  qed
qed

lemma fitRow_length: "length (fitRow n cells) = n"
  by (simp add: fitRow_def)

lemma parseTableRow_spec:
  "parseTableRow line =
     dropTrailingEmpty (dropLeadingEmpty
       (map trim (map unescapePipes (splitUnescapedPipes None (trim line) []))))"
proof -
  define cells where "cells = map trim (map unescapePipes (splitUnescapedPipes None (trim line) []))"
  have ne: "cells \<noteq> []" unfolding cells_def by (simp add: splitUnescapedPipes_nonempty)
  have dt: "dropTrailingEmpty xs = (if xs \<noteq> [] \<and> last xs = [] then butlast xs else xs)" for xs
    unfolding dropTrailingEmpty_def dropLeadingEmpty_def
    by (cases xs rule: rev_cases) (auto split: list.splits)
  have dl: "dropLeadingEmpty xs = (if xs \<noteq> [] \<and> hd xs = [] then tl xs else xs)" for xs
    unfolding dropLeadingEmpty_def by (cases xs) auto
  show ?thesis
    unfolding parseTableRow_def Let_def cells_def [symmetric] dt dl using ne by simp
qed

lemma splitUnescapedPipes_separators:
  assumes "cur \<noteq> [] \<longrightarrow> prev = Some (last cur)"
  shows "\<forall>p\<in>set (butlast (splitUnescapedPipes prev s cur)). lastUnit p \<noteq> Some BACKSLASH"
  using assms
proof (induction s arbitrary: prev cur)
  case Nil
  then show ?case by simp
next
  case (Cons c s)
  show ?case
  proof (cases "c = PIPE \<and> prev \<noteq> Some BACKSLASH")
    case True
    have "\<forall>p\<in>set (butlast (splitUnescapedPipes (Some c) s [])). lastUnit p \<noteq> Some BACKSLASH"
      by (rule Cons.IH) simp
    moreover have "lastUnit cur \<noteq> Some BACKSLASH"
      using True Cons.prems by (auto simp: lastUnit_def)
    ultimately show ?thesis using True by (simp add: splitUnescapedPipes_nonempty)
  next
    case False
    have "\<forall>p\<in>set (butlast (splitUnescapedPipes (Some c) s (cur @ [c]))). lastUnit p \<noteq> Some BACKSLASH"
      by (rule Cons.IH) simp
    then show ?thesis using False by auto
  qed
qed

lemma openTableRow_table:
  "openTableRow li (pre @ [Node (Table als cells rows) [] False s e]) line
     = pre @ [Node (Table als cells (rows @ [fitRow (length cells) (parseTableRow line)])) [] False s li]"
  by (simp add: openTableRow_def isTable_def appendTableRow_def setEndLineIndex_def setType_def)

text \<open>
  Claim C7. \<open>parseTableRow\<close> trims the line and splits it at the pipes that no backslash
  precedes: the pieces joined by pipes are the trimmed line, no piece holds such a pipe,
  and no piece before a separator ends in a backslash. In each cell a backslash followed
  by a pipe becomes the pipe and any other unit is kept, the cell is trimmed, and then
  one empty cell is dropped at the front and one at the end, the cells between staying
  as they are. A body row appended to an open table is the parsed row fitted to the
  number of header cells: it has that many cells, begins with the parsed cells (all of
  them, or the first ones when there are too many) and is filled up with empty strings.
\<close>

theorem table_row_parsing:
  "(\<forall>s. joinWith PIPE (splitUnescapedPipes None s []) = s
        \<and> (\<forall>p\<in>set (splitUnescapedPipes None s []). \<forall>j. \<not> isUnescapedPipe p j)
        \<and> (\<forall>p\<in>set (butlast (splitUnescapedPipes None s [])). lastUnit p \<noteq> Some BACKSLASH))
   \<and> (\<forall>rest. unescapePipes (BACKSLASH # PIPE # rest) = PIPE # unescapePipes rest)
   \<and> (\<forall>a rest. \<not> (a = BACKSLASH \<and> charAt rest 0 = [PIPE]) \<longrightarrow>
          unescapePipes (a # rest) = a # unescapePipes rest)
   \<and> (\<forall>line. parseTableRow line =
          dropTrailingEmpty (dropLeadingEmpty
            (map trim (map unescapePipes (splitUnescapedPipes None (trim line) [])))))
   \<and> (\<forall>n cells. length (fitRow n cells) = n
          \<and> take (length cells) (fitRow n cells) = take n cells
          \<and> drop (length cells) (fitRow n cells) = replicate (n - length cells) [])
   \<and> (\<forall>li pre als cells rows s e line.
          openTableRow li (pre @ [Node (Table als cells rows) [] False s e]) line
            = pre @ [Node (Table als cells (rows @ [fitRow (length cells) (parseTableRow line)])) [] False s li])"
proof -
  have a: "\<forall>p\<in>set (splitUnescapedPipes None s []). \<forall>j. \<not> isUnescapedPipe p j" for s
    by (rule splitUnescapedPipes_pieces) (simp_all add: isUnescapedPipe_def)
  have b: "\<forall>p\<in>set (butlast (splitUnescapedPipes None s [])). lastUnit p \<noteq> Some BACKSLASH" for s
    by (rule splitUnescapedPipes_separators) simp
  have c: "unescapePipes (a # rest) = a # unescapePipes rest"
    if "\<not> (a = BACKSLASH \<and> charAt rest 0 = [PIPE])" for a rest
    using that by (cases rest) (auto simp: charAt_def)
  have d: "length (fitRow n cells) = n
          \<and> take (length cells) (fitRow n cells) = take n cells
          \<and> drop (length cells) (fitRow n cells) = replicate (n - length cells) []" for n cells
    by (simp add: fitRow_def)
  show ?thesis
    using a b c d splitUnescapedPipes_join [of None _ "[]"] parseTableRow_spec openTableRow_table
    by simp
qed

theorem table_row_parsing_witness:
  "splitUnescapedPipes None (js ''a'' @ [BACKSLASH, PIPE] @ js ''b|c'') []
     = [js ''a'' @ [BACKSLASH, PIPE] @ js ''b'', js ''c'']
   \<and> \<not> isUnescapedPipe (js ''a'' @ [BACKSLASH, PIPE] @ js ''b'') 2
   \<and> lastUnit (js ''a'' @ [BACKSLASH, PIPE] @ js ''b'') \<noteq> Some BACKSLASH
   \<and> unescapePipes (js ''a'' @ [BACKSLASH, PIPE] @ js ''b'') = js ''a|b''
   \<and> parseTableRow (js ''| a'' @ [BACKSLASH, PIPE] @ js ''b |  | c |'') = [js ''a|b'', [], js ''c'']"
proof -
  note T = table_row_parsing
  let ?s = "js ''a'' @ [BACKSLASH, PIPE] @ js ''b|c''"
  let ?p = "js ''a'' @ [BACKSLASH, PIPE] @ js ''b''"
  have 1: "splitUnescapedPipes None ?s [] = [?p, js ''c'']"
    by (simp add: js_def PIPE_def BACKSLASH_def)
  have m: "?p \<in> set (splitUnescapedPipes None ?s [])" "?p \<in> set (butlast (splitUnescapedPipes None ?s []))"
    unfolding 1 by simp_all
  have 2: "\<not> isUnescapedPipe ?p 2"
    using T [THEN conjunct1, rule_format, of ?s] m(1) by blast
  have 3: "lastUnit ?p \<noteq> Some BACKSLASH"
    using T [THEN conjunct1, rule_format, of ?s] m(2) by blast
  have n: "\<not> (97 = BACKSLASH \<and> charAt ([BACKSLASH, PIPE] @ js ''b'') 0 = [PIPE])"
     "\<not> (98 = BACKSLASH \<and> charAt [] 0 = [PIPE])"
    by (simp_all add: BACKSLASH_def)
  have 4: "unescapePipes ?p = js ''a|b''"
    using T [THEN conjunct2, THEN conjunct2, THEN conjunct1, rule_format, OF n(1)]
      T [THEN conjunct2, THEN conjunct1, rule_format, of "js ''b''"]
    by (simp add: js_def PIPE_def)
  have 5: "parseTableRow (js ''| a'' @ [BACKSLASH, PIPE] @ js ''b |  | c |'') = [js ''a|b'', [], js ''c'']"
    unfolding T [THEN conjunct2, THEN conjunct2, THEN conjunct2, THEN conjunct1, rule_format]
    by (simp add: js_def PIPE_def BACKSLASH_def dropTrailingEmpty_def dropLeadingEmpty_def
          trim_def trimStart_def trimEnd_def isJsWhiteSpace_def)
  show ?thesis using 1 2 3 4 5 by simp
qed

section \<open>Termination of \<open>parse\<close>\<close>

text \<open>
  The definitions that evaluate the model on a given input.
\<close>

lemmas string_defs = js_def charAt_def slice_def sliceFrom_def trim_def trimStart_def trimEnd_def
  isJsWhiteSpace_def TAB_def LF_def CR_def SPACE_def BACKSLASH_def BACKTICK_def PIPE_def
  DQUOTE_def SQUOTE_def charCodeAt_def isSpaceOrTab_def isLineEmpty_def

lemmas classifier_defs = getLeadingNonspaceColumn_def sliceLeadingIndent_def isIndentedCodeLine_def
  markerRun_def parseCodeFenceStart_def isCodeFenceEnd_def isSeparator_def parseBlockquoteLine_def
  parseATXHeading_def closingHashes.simps parseSetextHeading_def parseTableRow_def
  isDelimiterCell_def cellAlignment_def isDelimiterUnit_def parseTableStartLine_def fitRow_def
  isDigit_def digitsLoop.simps parseIntDecimal_def parseOrderedListItem_def
  parseUnorderedListItem_def adjustListItem_def parseListItem_def parseHTMLBlockStart_def
  endPatternTest_def HTML_SEQUENCES_def

lemmas reference_defs = parseLinkReferenceDefinition_def consumeDefinitions.simps
  parseLinkDestination_def unescapeString_def normalizeReference_def

lemmas tree_defs = setType_def setChildren_def setClosed_def setEndLineIndex_def isParagraph_def
  isTable_def isContainer_def getDeepestOpenNodeOnRightmostPath.simps isListTight_def
  closeOpenChain.simps closeDownward.simps closeRightmostPath_def addNode_def
  updateDeepestOpenNode.simps appendParagraphLine_def openParagraph_def appendTableRow_def
  openTableRow_def openBlankLine_def openIndentedCode_def continuesList_def setNumOfColumns_def
  openListItem_def openThematicBreak_def openTableOrSetext_def openHtmlBlock_def
  openFencedCode_def openATXHeading_def openStep_def openBlocks.simps descendOpenBlocks.simps
  parseLine_def

lemmas parse_defs = newMarkdownParser_def newLineSplitter_def split_def pushLine_def replaceNul_def
  closedFrom_def parseInternal_def parse_def

text \<open>
  The title loop of \<open>parseLinkReferenceDefinition\<close> has no test for the end of \<open>content\<close>:
  once the cursor is past the last unit, \<open>charAt\<close> gives the empty string, no branch of
  the loop applies and the cursor moves on by one for ever.
\<close>

lemma titleLoop_returns_nonempty:
  assumes "titleLoop openingQuote closingQuote rest pending acc = Some y"
  shows "rest \<noteq> []"
proof (rule titleLoop.raw_induct [where P = "\<lambda>a b rest d e f. rest \<noteq> []", OF _ assms])
  fix f :: "cu \<Rightarrow> cu \<Rightarrow> jsstring \<Rightarrow> jsstring list \<Rightarrow> jsstring \<Rightarrow> (jsstring option \<times> jsstring \<times> jsstring list) option"
  fix openingQuote closingQuote rest pending acc y
  assume IH: "\<And>a b rest d e y. f a b rest d e = Some y \<Longrightarrow> rest \<noteq> []"
  assume eq: "(if charAt rest 0 = [closingQuote]
      then Some (Some acc, drop 1 rest, pending)
      else if charAt rest 0 = [ch CHR ''(''] \<and> openingQuote = ch CHR ''(''
           then Some (None, rest, pending)
           else if charAt rest 0 = [BACKSLASH] \<and> 1 < length rest
                then f openingQuote closingQuote (drop 2 rest)
                      pending (acc @ take 2 rest)
                else if charAt rest 0 = [LF]
                     then case pending of [] \<Rightarrow> Some (None, rest, pending)
                          | nextLine # pending' \<Rightarrow>
                              f openingQuote closingQuote
                               (drop 1 rest @ trim nextLine @ [LF]) pending'
                               (acc @ [LF])
                     else f openingQuote closingQuote (drop 1 rest)
                           pending (acc @ take 1 rest)) = Some y"
  show "rest \<noteq> []"
  proof
    assume "rest = []"
    with eq have "f openingQuote closingQuote [] pending acc = Some y"
      by (simp add: charAt_def)
    from IH [OF this] show False by simp
  qed
qed

lemma titleLoop_past_end: "titleLoop openingQuote closingQuote [] pending acc = None"
proof (cases "titleLoop openingQuote closingQuote [] pending acc")
  case (Some y)
  from titleLoop_returns_nonempty [OF this] show ?thesis by simp
qed simp

lemma titleLoop_step:
  "rest \<noteq> [] \<Longrightarrow> titleLoop openingQuote closingQuote rest pending acc =
     (if charAt rest 0 = [closingQuote] then Some (Some acc, drop 1 rest, pending)
      else if charAt rest 0 = [ch CHR ''(''] \<and> openingQuote = ch CHR ''('' then Some (None, rest, pending)
      else if charAt rest 0 = [BACKSLASH] \<and> 1 < length rest then
        titleLoop openingQuote closingQuote (drop 2 rest) pending (acc @ take 2 rest)
      else if charAt rest 0 = [LF] then
        (case pending of
           [] \<Rightarrow> Some (None, rest, pending)
         | nextLine # pending' \<Rightarrow>
             titleLoop openingQuote closingQuote (drop 1 rest @ trim nextLine @ [LF]) pending' (acc @ [LF]))
      else titleLoop openingQuote closingQuote (drop 1 rest) pending (acc @ take 1 rest))"
  by (subst titleLoop.simps) simp

lemma titleLoop_Cons:
  "titleLoop openingQuote closingQuote (c # rest) pending acc =
     (if c = closingQuote then Some (Some acc, rest, pending)
      else if c = ch CHR ''('' \<and> openingQuote = ch CHR ''('' then Some (None, c # rest, pending)
      else if c = BACKSLASH \<and> rest \<noteq> [] then
        titleLoop openingQuote closingQuote (tl rest) pending (acc @ [c, hd rest])
      else if c = LF then
        (case pending of
           [] \<Rightarrow> Some (None, c # rest, pending)
         | nextLine # pending' \<Rightarrow>
             titleLoop openingQuote closingQuote (rest @ trim nextLine @ [LF]) pending' (acc @ [LF]))
      else titleLoop openingQuote closingQuote rest pending (acc @ [c]))"
  by (subst titleLoop.simps) (cases rest; simp add: charAt_def split: list.splits)

text \<open>
  Claim C5: for every input and stream flag, \<open>parse\<close> returns a list of blocks. It does not:
  on the nine units \<open>[a]: b\<close>, a space, a double quote and a backslash (a definition whose
  title is opened by a quote and followed by a backslash at the end of the input), parsed with \<open>stream\<close> false, the line becomes a
  paragraph, the paragraph is closed at the end of the call, and the sweep for link
  reference definitions calls \<open>parseLinkReferenceDefinition\<close> on its one line. There the
  content is the line and a line feed; the title loop meets the backslash at the unit
  before the line feed, skips two units, and is past the end of the content. Neither that
  call nor \<open>parse\<close> returns, whatever the inline parser and the other parameters are.
\<close>

theorem parse_does_not_return:
  "parseLinkReferenceDefinition E [js ''[a]: b '' @ [DQUOTE, BACKSLASH]] = None
   \<and> parse E (js ''[a]: b '' @ [DQUOTE, BACKSLASH]) False newMarkdownParser = None"
  by (simp add: string_defs classifier_defs reference_defs tree_defs parse_defs Let_def
      titleLoop_Cons titleLoop_past_end)

section \<open>Facts about \<open>trim\<close> and the first unit of a line\<close>

definition isBlank :: "cu \<Rightarrow> bool" where
  "isBlank c = (c = SPACE \<or> c = TAB)"

lemma isBlank_white: "isBlank c \<Longrightarrow> isJsWhiteSpace c"
  by (auto simp: isBlank_def isJsWhiteSpace_def SPACE_def TAB_def)

lemma getFirstNonspaceIndex_takeWhile:
  "getFirstNonspaceIndex line = length (takeWhile isBlank line)"
  by (induction line) (auto simp: isSpaceOrTab_def isBlank_def)

lemma firstNonspace_decomp:
  assumes "charAt line (getFirstNonspaceIndex line) = [c]"
  shows "\<exists>pre post. line = pre @ c # post \<and> list_all isBlank pre \<and> \<not> isBlank c
          \<and> length pre = getFirstNonspaceIndex line"
proof -
  let ?i = "length (takeWhile isBlank line)"
  from assms have i: "?i < length line" and c: "line ! ?i = c"
    by (simp_all add: charAt_single getFirstNonspaceIndex_takeWhile)
  have nb: "\<not> isBlank c" using nth_length_takeWhile [OF i] c by simp
  have "dropWhile isBlank line = drop ?i line" by (rule dropWhile_eq_drop)
  also have "\<dots> = c # drop (Suc ?i) line" using Cons_nth_drop_Suc [OF i] c by simp
  finally have d: "dropWhile isBlank line = c # drop (Suc ?i) line" .
  have "line = takeWhile isBlank line @ dropWhile isBlank line" by simp
  then have l: "line = takeWhile isBlank line @ c # drop (Suc ?i) line" using d by simp
  have a: "list_all isBlank (takeWhile isBlank line)"
    by (simp add: list_all_iff) (meson set_takeWhileD)
  show ?thesis
    apply (rule exI [of _ "takeWhile isBlank line"])
    apply (rule exI [of _ "drop (Suc ?i) line"])
    using l a nb by (simp add: getFirstNonspaceIndex_takeWhile)
qed

lemma trim_all_white: "list_all isJsWhiteSpace s \<Longrightarrow> trim s = []"
proof -
  assume "list_all isJsWhiteSpace s"
  then have d: "dropWhile isJsWhiteSpace s = []" by (simp add: list_all_iff)
  show ?thesis unfolding trim_def trimStart_def trimEnd_def d by simp
qed

lemma trim_empty_iff: "trim s = [] \<longleftrightarrow> list_all isJsWhiteSpace s"
proof
  assume "trim s = []"
  then have "dropWhile isJsWhiteSpace (rev (dropWhile isJsWhiteSpace s)) = []"
    by (simp add: trim_def trimStart_def trimEnd_def)
  then have "\<forall>x\<in>set (dropWhile isJsWhiteSpace s). isJsWhiteSpace x"
    by (metis dropWhile_eq_Nil_conv set_rev)
  then have "dropWhile isJsWhiteSpace s = []"
    by (metis dropWhile_eq_Nil_conv hd_dropWhile list.set_sel(1))
  then show "list_all isJsWhiteSpace s" by (simp add: list_all_iff dropWhile_eq_Nil_conv)
qed (rule trim_all_white)

lemma set_trim: "set (trim s) \<subseteq> set s"
  unfolding trim_def trimStart_def trimEnd_def
  by (metis set_dropWhileD set_rev subsetI)

lemma trimEnd_Cons: "\<not> isJsWhiteSpace c \<Longrightarrow> trimEnd (c # post) = c # trimEnd post"
proof -
  assume c: "\<not> isJsWhiteSpace c"
  have "dropWhile isJsWhiteSpace (rev post @ [c]) = dropWhile isJsWhiteSpace (rev post) @ [c]"
    using c by (simp add: dropWhile_append)
  then show ?thesis by (simp add: trimEnd_def)
qed

lemma trim_first:
  "list_all isJsWhiteSpace pre \<Longrightarrow> \<not> isJsWhiteSpace c \<Longrightarrow> trim (pre @ c # post) = c # trimEnd post"
  by (simp add: trim_def trimStart_def dropWhile_append3 list_all_iff trimEnd_Cons dropWhile_append)

lemma trimEnd_all_white: "list_all isJsWhiteSpace s \<Longrightarrow> trimEnd s = []"
  by (simp add: trimEnd_def list_all_iff)

lemma charAt_notin: "x \<notin> set s \<Longrightarrow> charAt s i \<noteq> [x]"
  by (auto simp: charAt_single)

section \<open>Properties of the table continuation\<close>

text \<open>
  The lines of the claim: every unit is a pipe or white space.
\<close>

definition isPipeOrWhite :: "cu \<Rightarrow> bool" where
  "isPipeOrWhite c = (c = PIPE \<or> isJsWhiteSpace c)"

lemma PIPE_not_white: "\<not> isJsWhiteSpace PIPE"
  by (simp add: isJsWhiteSpace_def PIPE_def)

lemma isPipeOrWhite_cases:
  "isPipeOrWhite c \<Longrightarrow> c \<noteq> BACKSLASH \<and> c \<noteq> ch CHR ''>'' \<and> c \<noteq> ch CHR ''<'' \<and> c \<noteq> ch CHR ''#''
     \<and> c \<noteq> ch CHR ''~'' \<and> c \<noteq> BACKTICK \<and> c \<noteq> ch CHR ''-'' \<and> c \<noteq> ch CHR ''_'' \<and> c \<noteq> ch CHR ''*''
     \<and> c \<noteq> ch CHR ''+'' \<and> (c < 48 \<or> c > 57)"
  by (auto simp: isPipeOrWhite_def isJsWhiteSpace_def PIPE_def BACKSLASH_def BACKTICK_def)

lemma charAt_in_set: "charAt s i = [c] \<Longrightarrow> c \<in> set s"
  by (auto simp: charAt_single)

lemma unescapePipes_plain: "BACKSLASH \<notin> set s \<Longrightarrow> unescapePipes s = s"
  by (induction s rule: unescapePipes.induct) auto

lemma count_list_dropWhile: "\<not> P x \<Longrightarrow> count_list (dropWhile P s) x = count_list s x"
  by (induction s) auto

lemma count_list_trim: "\<not> isJsWhiteSpace x \<Longrightarrow> count_list (trim s) x = count_list s x"
  by (simp add: trim_def trimStart_def trimEnd_def count_list_dropWhile count_list_rev)

lemma white_cell_empty:
  assumes "list_all isJsWhiteSpace cur" shows "trim (unescapePipes cur) = []"
proof -
  have "BACKSLASH \<notin> set cur" using assms
    by (auto simp: list_all_iff isJsWhiteSpace_def BACKSLASH_def)
  then show ?thesis using assms by (simp add: unescapePipes_plain trim_all_white)
qed

lemma splitUnescapedPipes_pipe_row:
  "list_all isPipeOrWhite s \<Longrightarrow> list_all isJsWhiteSpace cur \<Longrightarrow> prev \<noteq> Some BACKSLASH
   \<Longrightarrow> map trim (map unescapePipes (splitUnescapedPipes prev s cur))
       = replicate (Suc (count_list s PIPE)) []"
proof (induction s arbitrary: prev cur)
  case Nil
  then show ?case by (simp add: white_cell_empty)
next
  case (Cons c s)
  from Cons.prems(1) have c: "isPipeOrWhite c" and s: "list_all isPipeOrWhite s" by simp_all
  from c have nb: "Some c \<noteq> Some BACKSLASH" using isPipeOrWhite_cases by blast
  show ?case
  proof (cases "c = PIPE")
    case True
    then show ?thesis
      using Cons.IH [OF s _ nb, of "[]"] Cons.prems(2,3) by (simp add: white_cell_empty)
  next
    case False
    with c have "isJsWhiteSpace c" by (simp add: isPipeOrWhite_def)
    then have "list_all isJsWhiteSpace (cur @ [c])" using Cons.prems(2) by simp
    from Cons.IH [OF s this nb] False show ?thesis by simp
  qed
qed

lemma list_all_trim: "list_all P s \<Longrightarrow> list_all P (trim s)"
  using set_trim [of s] by (auto simp: list_all_iff)

lemma butlast_replicate_Suc: "butlast (replicate (Suc n) x) = replicate n x"
  by (induction n) auto

lemma parseTableRow_pipe_row:
  assumes "PIPE \<in> set line" "list_all isPipeOrWhite line"
  shows "parseTableRow line = replicate (count_list line PIPE - 1) []"
proof -
  have n: "count_list line PIPE > 0" using assms(1) by (metis count_list_0_iff gr0I)
  have "map trim (map unescapePipes (splitUnescapedPipes None (trim line) []))
          = replicate (Suc (count_list line PIPE)) []"
    using splitUnescapedPipes_pipe_row [OF list_all_trim [OF assms(2)], of "[]" None]
    by (simp add: count_list_trim PIPE_not_white)
  moreover obtain k where k: "count_list line PIPE = Suc k" using n by (cases "count_list line PIPE") auto
  ultimately show ?thesis
    unfolding parseTableRow_def Let_def
    by (simp add: butlast_replicate_Suc del: replicate.simps butlast.simps)
qed

lemma charAt_pipe_row:
  "list_all isPipeOrWhite s \<Longrightarrow> charAt s i = [c] \<Longrightarrow> isPipeOrWhite c"
  by (auto simp: list_all_iff dest: charAt_in_set)

lemma pipe_row_charAt:
  assumes "list_all isPipeOrWhite s"
  shows "charAt s i \<noteq> [ch CHR ''>'']" "charAt s i \<noteq> [ch CHR ''<'']" "charAt s i \<noteq> [ch CHR ''#'']"
    "charAt s i \<noteq> [ch CHR ''~'']" "charAt s i \<noteq> [BACKTICK]" "charAt s i \<noteq> [ch CHR ''-'']"
    "charAt s i \<noteq> [ch CHR ''_'']" "charAt s i \<noteq> [ch CHR ''*'']" "charAt s i \<noteq> [ch CHR ''+'']"
  using charAt_pipe_row [OF assms, of i] isPipeOrWhite_cases by blast+

lemma pipe_row_not_empty:
  assumes "PIPE \<in> set line" shows "\<not> isLineEmpty line"
proof -
  have "\<not> list_all isJsWhiteSpace line" using assms PIPE_not_white by (auto simp: list_all_iff)
  then show ?thesis by (simp add: isLineEmpty_def trim_empty_iff)
qed

lemma pipe_row_no_blockquote:
  assumes "list_all isPipeOrWhite line" shows "parseBlockquoteLine line = None"
  using pipe_row_charAt [OF assms, of "getFirstNonspaceIndex line"]
  by (simp add: parseBlockquoteLine_def Let_def)

lemma pipe_row_no_heading:
  assumes "list_all isPipeOrWhite line" shows "parseATXHeading line = None"
  using pipe_row_charAt [OF list_all_trim [OF assms], of 0]
  by (simp add: parseATXHeading_def Let_def)

lemma pipe_row_no_fence:
  assumes "list_all isPipeOrWhite line" shows "parseCodeFenceStart line = None"
  using pipe_row_charAt [OF list_all_trim [OF assms], of 0]
  by (simp add: parseCodeFenceStart_def Let_def)

lemma pipe_row_no_html:
  assumes "list_all isPipeOrWhite line" shows "parseHTMLBlockStart E line = None"
  using pipe_row_charAt [OF assms, of "getFirstNonspaceIndex line"]
  by (simp add: parseHTMLBlockStart_def Let_def)

lemma pipe_row_no_separator:
  assumes "list_all isPipeOrWhite line" shows "\<not> isSeparator line"
  using pipe_row_charAt [OF list_all_trim [OF assms], of 0]
  by (simp add: isSeparator_def Let_def)

lemma charCodeAt_charAt: "charCodeAt s i = Some c \<longleftrightarrow> charAt s i = [c]"
  by (auto simp: charCodeAt_def charAt_single)

lemma charCodeAt_None: "charCodeAt s i = None \<Longrightarrow> charAt s (i + k) = []"
  by (auto simp: charCodeAt_def charAt_def split: if_splits)

lemma pipe_row_no_ordered_item:
  assumes "list_all isPipeOrWhite line" shows "parseOrderedListItem line = None"
proof (cases "charCodeAt line (getFirstNonspaceIndex line)")
  case None
  then have "length line \<le> getFirstNonspaceIndex line" by (simp add: charCodeAt_def split: if_splits)
  then have "digitsLoop line (getFirstNonspaceIndex line) 1 = Some 1"
    by (subst digitsLoop.simps) simp
  then show ?thesis using None charCodeAt_None [OF None, of 1]
    by (simp add: parseOrderedListItem_def Let_def)
next
  case (Some c)
  then have "charAt line (getFirstNonspaceIndex line) = [c]" by (simp add: charCodeAt_charAt)
  then have "isPipeOrWhite c" using assms charAt_pipe_row by blast
  then have "c < 48 \<or> c > 57" using isPipeOrWhite_cases by blast
  then show ?thesis using Some by (simp add: parseOrderedListItem_def Let_def)
qed

lemma pipe_row_no_unordered_item:
  assumes "list_all isPipeOrWhite line" shows "parseUnorderedListItem line = None"
  using pipe_row_charAt [OF assms, of "getFirstNonspaceIndex line"]
  by (simp add: parseUnorderedListItem_def Let_def)

lemma pipe_row_no_list_item:
  "list_all isPipeOrWhite line \<Longrightarrow> parseListItem line = None"
  by (simp add: parseListItem_def pipe_row_no_ordered_item pipe_row_no_unordered_item)

lemma fitRow_empty_cells: "fitRow n (replicate k []) = replicate n []"
  by (auto simp: fitRow_def min_def replicate_add [symmetric])

lemma openBlocks_pipe_row:
  assumes "PIPE \<in> set line" "list_all isPipeOrWhite line" "\<not> isIndentedCodeLine line"
  shows "openBlocks E li (pre @ [Node (Table als hcells rows) kids False s e]) line refs
         = Some (pre @ [Node (Table als hcells (rows @ [replicate (length hcells) []])) kids False s li], refs)"
  using assms(3)
  by (simp add: openBlocks.simps openStep_def openATXHeading_def openFencedCode_def openHtmlBlock_def
      openTableOrSetext_def openThematicBreak_def openListItem_def openIndentedCode_def
      openBlankLine_def openTableRow_def appendTableRow_def isTable_def isParagraph_def
      setEndLineIndex_def setType_def
      pipe_row_no_blockquote [OF assms(2)] pipe_row_no_heading [OF assms(2)]
      pipe_row_no_fence [OF assms(2)] pipe_row_no_html [OF assms(2)]
      pipe_row_no_separator [OF assms(2)] pipe_row_no_list_item [OF assms(2)]
      pipe_row_not_empty [OF assms(1)] parseTableRow_pipe_row [OF assms(1,2)] fitRow_empty_cells)

lemma parseLine_pipe_row:
  assumes "PIPE \<in> set line" "list_all isPipeOrWhite line" "\<not> isIndentedCodeLine line"
  shows "parseLine E li (pre @ [Node (Table als hcells rows) kids False s e]) line refs
         = Some (pre @ [Node (Table als hcells (rows @ [replicate (length hcells) []])) kids False s li], refs)"
  unfolding parseLine_def
  by (subst descendOpenBlocks.simps)
     (simp add: pipe_row_not_empty [OF assms(1)] openBlocks_pipe_row [OF assms])

lemma closeRightmostPath_open_leaf:
  assumes "\<not> isContainer n" "\<not> isClosed n"
  shows "closeRightmostPath (pre @ [n])
         = pre @ [Node (ntype n) (children n) True (startLineIndex n) (endLineIndex n)]"
proof -
  have c: "closeOpenChain n = Node (ntype n) (children n) True (startLineIndex n) (endLineIndex n)"
    using assms(1) by (subst closeOpenChain.simps) (cases "ntype n"; simp add: Let_def isContainer_def)
  have "closeDownward (pre @ [closeOpenChain n]) = pre @ [closeOpenChain n]"
    by (subst closeDownward.simps) (simp add: c)
  then show ?thesis using assms(2) by (simp add: closeRightmostPath_def c)
qed

lemma getDeepestOpenNodeOnRightmostPath_open_leaf:
  "\<not> isContainer n \<Longrightarrow> \<not> isClosed n \<Longrightarrow> getDeepestOpenNodeOnRightmostPath (pre @ [n]) = Some n"
  by (subst getDeepestOpenNodeOnRightmostPath.simps) simp

lemma openBlocks_pipe_row_indented:
  assumes "PIPE \<in> set line" "list_all isPipeOrWhite line" "isIndentedCodeLine line"
  shows "openBlocks E li (pre @ [Node (Table als hcells rows) kids False s e]) line refs
         = Some (pre @ [Node (Table als hcells rows) kids True s e,
                        Node (IndentedCodeBlock [sliceLeadingIndent line 4]) [] False li li], refs)"
proof -
  let ?t = "Node (Table als hcells rows) kids False s e"
  have t: "\<not> isContainer ?t" "\<not> isClosed ?t" by (simp_all add: isContainer_def)
  show ?thesis
    using assms(3)
    by (simp add: openBlocks.simps openStep_def openATXHeading_def openFencedCode_def openHtmlBlock_def
        openTableOrSetext_def openThematicBreak_def openListItem_def openIndentedCode_def
        isParagraph_def addNode_def
        closeRightmostPath_open_leaf [OF t] getDeepestOpenNodeOnRightmostPath_open_leaf [OF t]
        pipe_row_no_blockquote [OF assms(2)] pipe_row_no_heading [OF assms(2)]
        pipe_row_no_fence [OF assms(2)] pipe_row_no_html [OF assms(2)]
        pipe_row_no_separator [OF assms(2)] pipe_row_no_list_item [OF assms(2)])
qed

lemma parseLine_pipe_row_indented:
  assumes "PIPE \<in> set line" "list_all isPipeOrWhite line" "isIndentedCodeLine line"
  shows "parseLine E li (pre @ [Node (Table als hcells rows) kids False s e]) line refs
         = Some (pre @ [Node (Table als hcells rows) kids True s e,
                        Node (IndentedCodeBlock [sliceLeadingIndent line 4]) [] False li li], refs)"
  unfolding parseLine_def
  by (subst descendOpenBlocks.simps)
     (simp add: pipe_row_not_empty [OF assms(1)] openBlocks_pipe_row_indented [OF assms])

text \<open>
  Claim C10: while the deepest open node is a table, a line that is not blank and has only
  pipes and white space does not close the table; row parsing yields zero cells, and the
  padding appends a body row of empty strings, as many as the header has cells.

  What holds is about the container in which the second loop of \<open>parseLine\<close> runs
  (\<open>openBlocks\<close>), when its last child is an open table, and about \<open>parseLine\<close> itself when
  that container is the root. For a line with at least one pipe and otherwise only pipes
  and white space, row parsing yields one empty cell less than the line has pipes (zero
  cells for a single pipe). If the line is indented by less than four columns, the table
  stays open with its end line moved to this line, and the row appended has exactly as
  many cells as the header, all empty. If the line is indented by four columns or more,
  the table is closed and an indented code block is opened after it, with the line less
  four columns of its indent.
\<close>

theorem pipe_row_continues_table:
  assumes "PIPE \<in> set line" and "list_all (\<lambda>c. c = PIPE \<or> isJsWhiteSpace c) line"
  shows "parseTableRow line = replicate (count_list line PIPE - 1) []
    \<and> (\<not> isIndentedCodeLine line \<longrightarrow>
          openBlocks E li (pre @ [Node (Table als hcells rows) kids False s e]) line refs
            = Some (pre @ [Node (Table als hcells (rows @ [replicate (length hcells) []])) kids False s li],
                    refs)
          \<and> parseLine E li (pre @ [Node (Table als hcells rows) kids False s e]) line refs
            = Some (pre @ [Node (Table als hcells (rows @ [replicate (length hcells) []])) kids False s li],
                    refs))
    \<and> (isIndentedCodeLine line \<longrightarrow>
          openBlocks E li (pre @ [Node (Table als hcells rows) kids False s e]) line refs
            = Some (pre @ [Node (Table als hcells rows) kids True s e,
                           Node (IndentedCodeBlock [sliceLeadingIndent line 4]) [] False li li], refs)
          \<and> parseLine E li (pre @ [Node (Table als hcells rows) kids False s e]) line refs
            = Some (pre @ [Node (Table als hcells rows) kids True s e,
                           Node (IndentedCodeBlock [sliceLeadingIndent line 4]) [] False li li], refs))"
proof -
  have w: "list_all isPipeOrWhite line"
    using assms(2) by (simp add: list_all_iff isPipeOrWhite_def)
  show ?thesis
    using parseTableRow_pipe_row [OF assms(1) w]
      openBlocks_pipe_row [OF assms(1) w] parseLine_pipe_row [OF assms(1) w]
      openBlocks_pipe_row_indented [OF assms(1) w] parseLine_pipe_row_indented [OF assms(1) w]
    by simp
qed

theorem pipe_row_continues_table_witness:
  "PIPE \<in> set (js ''| |'') \<and> list_all (\<lambda>c. c = PIPE \<or> isJsWhiteSpace c) (js ''| |'')
   \<and> \<not> isIndentedCodeLine (js ''| |'')
   \<and> parseTableRow (js ''| |'') = [[]]
   \<and> (\<forall>E. parseLine E 2 [Node (Table [None, None] [js ''a'', js ''b''] []) [] False 0 1] (js ''| |'')
             Map.empty
           = Some ([Node (Table [None, None] [js ''a'', js ''b''] [[[], []]]) [] False 0 2], Map.empty))
   \<and> PIPE \<in> set (js ''     |'') \<and> list_all (\<lambda>c. c = PIPE \<or> isJsWhiteSpace c) (js ''     |'')
   \<and> isIndentedCodeLine (js ''     |'')
   \<and> (\<forall>E. openBlocks E 2 [Node (Table [None, None] [js ''a'', js ''b''] []) [] False 0 1] (js ''     |'')
             Map.empty
           = Some ([Node (Table [None, None] [js ''a'', js ''b''] []) [] True 0 1,
                    Node (IndentedCodeBlock [js '' |'']) [] False 2 2], Map.empty))"
proof -
  have h: "PIPE \<in> set (js ''| |'')" "list_all (\<lambda>c. c = PIPE \<or> isJsWhiteSpace c) (js ''| |'')"
    and n: "\<not> isIndentedCodeLine (js ''| |'')"
    by (simp_all add: string_defs isIndentedCodeLine_def getLeadingNonspaceColumn_def)
  have h2: "PIPE \<in> set (js ''     |'')" "list_all (\<lambda>c. c = PIPE \<or> isJsWhiteSpace c) (js ''     |'')"
    and i: "isIndentedCodeLine (js ''     |'')"
    by (simp_all add: string_defs isIndentedCodeLine_def getLeadingNonspaceColumn_def)
  have c: "count_list (js ''| |'') PIPE = 2" by (simp add: js_def PIPE_def)
  have sl: "sliceLeadingIndent (js ''     |'') 4 = js '' |''"
    by (simp add: string_defs sliceLeadingIndent_def)
  show ?thesis
    using h n h2 i
      pipe_row_continues_table [OF h, of _ 2 "[]" "[None, None]" "[js ''a'', js ''b'']" "[]" "[]" 0 1 Map.empty]
      pipe_row_continues_table [OF h2, of _ 2 "[]" "[None, None]" "[js ''a'', js ''b'']" "[]" "[]" 0 1 Map.empty]
    by (simp add: c sl numeral_2_eq_2)
qed

text \<open>
  The claim itself fails in three ways. The line \<open>||\<close> has only pipes, and row parsing
  yields one cell, not zero. The line of four spaces and a pipe has only pipes and white
  space and is not blank, and with a table as the deepest open node it closes the table
  and opens an indented code block: the branch for indented code comes before the branch
  for the table continuation in \<open>parseLine\<close>. And with the table open in an open block quote
  the table is the deepest open node, but the line \<open>|\<close> has no block quote marker: the
  second loop runs in the root, whose last child is the block quote and not the table,
  and the line closes the block quote with its table and opens a paragraph.
\<close>

theorem pipe_row_closes_table_counterexample:
  "parseTableRow (js ''||'') = [[]]
   \<and> (\<forall>E. parseLine E 2 [Node (Table [None] [js ''a''] []) [] False 0 1] (js ''    |'') Map.empty
         = Some ([Node (Table [None] [js ''a''] []) [] True 0 1,
                  Node (IndentedCodeBlock [js ''|'']) [] False 2 2], Map.empty))
   \<and> getDeepestOpenNodeOnRightmostPath
        [Node Blockquote [Node (Table [None] [js ''a''] []) [] False 0 1] False 0 1]
       = Some (Node (Table [None] [js ''a''] []) [] False 0 1)
   \<and> (\<forall>E. parseLine E 2 [Node Blockquote [Node (Table [None] [js ''a''] []) [] False 0 1] False 0 1]
               (js ''|'') Map.empty
         = Some ([Node Blockquote [Node (Table [None] [js ''a''] []) [] True 0 1] True 0 1,
                  Node (Paragraph [js ''|'']) [] False 2 2], Map.empty))"
  by (simp add: string_defs classifier_defs reference_defs tree_defs Let_def)

section \<open>Properties of the list items that do not interrupt a paragraph\<close>

lemma isLineEmpty_iff: "isLineEmpty s \<longleftrightarrow> list_all isJsWhiteSpace s"
  by (simp add: isLineEmpty_def trim_empty_iff)

lemma indentLoop_white:
  "list_all isJsWhiteSpace (snd (indentLoop col s)) \<Longrightarrow> list_all isJsWhiteSpace s"
  by (induction col s rule: indentLoop.induct)
     (auto simp: isJsWhiteSpace_def SPACE_def TAB_def split: if_splits)

lemma adjustListItem_empty:
  assumes "adjustListItem k c0 n a = (k', c', n')" "isLineEmpty c'"
  shows "isLineEmpty c0 \<and> k' = k"
proof -
  have s: "isJsWhiteSpace SPACE" by (simp add: isJsWhiteSpace_def SPACE_def)
  have "list_all isJsWhiteSpace (drop 1 (replicate a SPACE @ c0)) \<Longrightarrow> charAt (replicate a SPACE @ c0) 0 = [SPACE]
        \<Longrightarrow> list_all isJsWhiteSpace c0"
    by (cases a; cases c0) (auto simp: charAt_def s)
  then show ?thesis using assms
    unfolding adjustListItem_def Let_def isLineEmpty_iff sliceFrom_def
    by (auto split: if_splits)
qed

lemma adjustListItem_kind: "adjustListItem k c0 n a = (k', c', n') \<Longrightarrow> k' = k"
  unfolding adjustListItem_def Let_def by (auto split: if_splits)

lemma parseOrderedListItem_first:
  assumes "parseOrderedListItem line = Some r"
  shows "\<not> isIndentedCodeLine line \<and> (\<exists>c. charAt line (getFirstNonspaceIndex line) = [c] \<and> isDigit c)"
proof -
  from assms have i: "\<not> isIndentedCodeLine line"
    by (auto simp: parseOrderedListItem_def split: if_splits)
  show ?thesis
  proof (cases "charCodeAt line (getFirstNonspaceIndex line)")
    case None
    then have "length line \<le> getFirstNonspaceIndex line" by (simp add: charCodeAt_def split: if_splits)
    then have "digitsLoop line (getFirstNonspaceIndex line) 1 = Some 1"
      by (subst digitsLoop.simps) simp
    then have "parseOrderedListItem line = None" using None charCodeAt_None [OF None, of 1]
      by (simp add: parseOrderedListItem_def Let_def)
    with assms show ?thesis by simp
  next
    case (Some c)
    with assms i have "\<not> (c < 48 \<or> c > 57)"
      by (auto simp: parseOrderedListItem_def Let_def split: if_splits)
    then show ?thesis using Some i by (auto simp: charCodeAt_charAt isDigit_def)
  qed
qed

lemma parseUnorderedListItem_first:
  assumes "parseUnorderedListItem line = Some (content, n, a, m)"
  shows "\<not> isIndentedCodeLine line \<and> charAt line (getFirstNonspaceIndex line) = [m]
         \<and> (m = ch CHR ''*'' \<or> m = ch CHR ''+'' \<or> m = ch CHR ''-'')
         \<and> (list_all isJsWhiteSpace content
              \<longrightarrow> list_all isJsWhiteSpace (drop (Suc (getFirstNonspaceIndex line)) line))"
  using assms indentLoop_white [of "Suc (getFirstNonspaceIndex line)" "drop (Suc (getFirstNonspaceIndex line)) line"]
  unfolding parseUnorderedListItem_def Let_def
  by (auto split: if_splits prod.splits)

lemma parseListItem_first:
  assumes "parseListItem line = Some (k, content, cols)"
  shows "\<not> isIndentedCodeLine line
    \<and> (\<exists>c. charAt line (getFirstNonspaceIndex line) = [c]
          \<and> (case k of Ordered v d \<Rightarrow> isDigit c
               | Unordered m \<Rightarrow> c = m \<and> (m = ch CHR ''*'' \<or> m = ch CHR ''+'' \<or> m = ch CHR ''-'')
                   \<and> (isLineEmpty content
                        \<longrightarrow> list_all isJsWhiteSpace (drop (Suc (getFirstNonspaceIndex line)) line))))"
proof (cases "parseOrderedListItem line")
  case (Some r)
  obtain c0 n a v d where r: "r = (c0, n, a, v, d)" by (cases r) auto
  from assms Some r have "adjustListItem (Ordered v d) c0 n a = (k, content, cols)"
    by (simp add: parseListItem_def)
  then have "k = Ordered v d" by (simp add: adjustListItem_kind)
  then show ?thesis using parseOrderedListItem_first [OF Some] by auto
next
  case None
  with assms obtain c0 n a m where u: "parseUnorderedListItem line = Some (c0, n, a, m)"
    and adj: "adjustListItem (Unordered m) c0 n a = (k, content, cols)"
    by (auto simp: parseListItem_def split: option.splits)
  from adj have k: "k = Unordered m" by (simp add: adjustListItem_kind)
  have "isLineEmpty content \<longrightarrow> list_all isJsWhiteSpace c0"
    using adjustListItem_empty [OF adj] by (simp add: isLineEmpty_iff)
  then show ?thesis using parseUnorderedListItem_first [OF u] k by auto
qed

lemma digit_or_marker_not_white:
  "isDigit c \<or> c = ch CHR ''*'' \<or> c = ch CHR ''+'' \<or> c = ch CHR ''-'' \<Longrightarrow> \<not> isJsWhiteSpace c"
  by (auto simp: isDigit_def isJsWhiteSpace_def)

lemma list_all_blank_white: "list_all isBlank s \<Longrightarrow> list_all isJsWhiteSpace s"
  by (auto simp: list_all_iff isBlank_white)

text \<open>What the line of an item that does not interrupt a paragraph looks like.\<close>

lemma list_item_line:
  assumes pl: "parseListItem line = Some (k, content, cols)"
    and cond: "isLineEmpty content \<or> (case k of Ordered v d \<Rightarrow> v \<noteq> 1 | Unordered m \<Rightarrow> False)"
    and nd: "k \<noteq> Unordered (ch CHR ''-'')"
  shows "\<exists>c. charAt line (getFirstNonspaceIndex line) = [c] \<and> charAt (trim line) 0 = [c]
            \<and> (isDigit c \<or> c = ch CHR ''+'' \<or> (c = ch CHR ''*'' \<and> trim line = [c]))"
proof -
  from parseListItem_first [OF pl] obtain c where
    c: "charAt line (getFirstNonspaceIndex line) = [c]"
    and kc: "case k of Ordered v d \<Rightarrow> isDigit c
               | Unordered m \<Rightarrow> c = m \<and> (m = ch CHR ''*'' \<or> m = ch CHR ''+'' \<or> m = ch CHR ''-'')
                   \<and> (isLineEmpty content
                        \<longrightarrow> list_all isJsWhiteSpace (drop (Suc (getFirstNonspaceIndex line)) line))"
    by blast
  from firstNonspace_decomp [OF c] obtain pre post where
    l: "line = pre @ c # post" and pre: "list_all isBlank pre"
    and len: "length pre = getFirstNonspaceIndex line" by blast
  have post: "post = drop (Suc (getFirstNonspaceIndex line)) line"
    using l len by (metis append_eq_conv_conj drop_Suc tl_drop list.sel(3))
  have dm: "isDigit c \<or> c = ch CHR ''*'' \<or> c = ch CHR ''+'' \<or> c = ch CHR ''-''"
    using kc by (cases k) auto
  have t: "trim line = c # trimEnd post"
    unfolding l by (rule trim_first [OF list_all_blank_white [OF pre] digit_or_marker_not_white [OF dm]])
  have "isDigit c \<or> c = ch CHR ''+'' \<or> (c = ch CHR ''*'' \<and> trim line = [c])"
  proof (cases k)
    case (Ordered v d)
    then show ?thesis using kc by simp
  next
    case (Unordered m)
    with kc nd cond have "c = m" "m = ch CHR ''*'' \<or> m = ch CHR ''+''"
      "list_all isJsWhiteSpace post" by (auto simp: post)
    then show ?thesis using t by (auto simp: trimEnd_all_white)
  qed
  then show ?thesis using c t by (auto simp: charAt_def)
qed

lemma list_item_line_recognizers:
  assumes a: "charAt line (getFirstNonspaceIndex line) = [c]"
    and b: "charAt (trim line) 0 = [c]"
    and d: "isDigit c \<or> c = ch CHR ''+'' \<or> (c = ch CHR ''*'' \<and> trim line = [c])"
  shows "parseBlockquoteLine line = None" "parseATXHeading line = None"
    "parseCodeFenceStart line = None" "parseHTMLBlockStart E line = None"
    "parseTableStartLine firstLine line = None" "parseSetextHeading line = None"
    "\<not> isSeparator line" "\<not> isLineEmpty line"
proof -
  have c: "c \<noteq> ch CHR ''>''" "c \<noteq> ch CHR ''#''" "c \<noteq> ch CHR ''~''" "c \<noteq> BACKTICK" "c \<noteq> ch CHR ''<''"
    "c \<noteq> PIPE" "c \<noteq> ch CHR '':''" "c \<noteq> ch CHR ''-''" "c \<noteq> ch CHR ''=''" "c \<noteq> ch CHR ''_''"
    using d by (auto simp: isDigit_def BACKTICK_def PIPE_def)
  show "parseBlockquoteLine line = None" using a c by (simp add: parseBlockquoteLine_def)
  show "parseATXHeading line = None" using b c by (simp add: parseATXHeading_def)
  show "parseCodeFenceStart line = None" using b c by (simp add: parseCodeFenceStart_def Let_def)
  show "parseHTMLBlockStart E line = None" using a c by (simp add: parseHTMLBlockStart_def)
  show "parseTableStartLine firstLine line = None" using b c
    by (simp add: parseTableStartLine_def Let_def split: option.splits)
  show "parseSetextHeading line = None" using b c by (simp add: parseSetextHeading_def)
  show "\<not> isLineEmpty line" using b by (auto simp: isLineEmpty_def charAt_def)
  show "\<not> isSeparator line"
  proof (cases "c = ch CHR ''*''")
    case True
    with d have "trim line = [c]" by (auto simp: isDigit_def)
    then show ?thesis using True by (simp add: isSeparator_def Let_def)
  next
    case False
    then show ?thesis using b c by (simp add: isSeparator_def)
  qed
qed

lemma openBlocks_list_item_continues_paragraph:
  assumes pl: "parseListItem line = Some (k, content, cols)"
    and cond: "isLineEmpty content \<or> (case k of Ordered v d \<Rightarrow> v \<noteq> 1 | Unordered m \<Rightarrow> False)"
    and nd: "k \<noteq> Unordered (ch CHR ''-'')"
    and p: "isParagraph p" "\<not> isClosed p"
  shows "openBlocks E li (pre @ [p]) line refs = Some (pre @ [appendParagraphLine li line p], refs)"
proof -
  from list_item_line [OF pl cond nd] obtain c where
    a: "charAt line (getFirstNonspaceIndex line) = [c]" and b: "charAt (trim line) 0 = [c]"
    and d: "isDigit c \<or> c = ch CHR ''+'' \<or> (c = ch CHR ''*'' \<and> trim line = [c])" by blast
  note r = list_item_line_recognizers [OF a b d]
  show ?thesis
    using p cond
    by (simp add: openBlocks.simps openStep_def openATXHeading_def openFencedCode_def
        openHtmlBlock_def openTableOrSetext_def openThematicBreak_def openListItem_def r pl Let_def)
qed

lemma parseLine_list_item_continues_paragraph:
  assumes pl: "parseListItem line = Some (k, content, cols)"
    and cond: "isLineEmpty content \<or> (case k of Ordered v d \<Rightarrow> v \<noteq> 1 | Unordered m \<Rightarrow> False)"
    and nd: "k \<noteq> Unordered (ch CHR ''-'')"
    and p: "isParagraph p" "\<not> isClosed p"
  shows "parseLine E li (pre @ [p]) line refs = Some (pre @ [appendParagraphLine li line p], refs)"
proof -
  from list_item_line [OF pl cond nd] obtain c where
    a: "charAt line (getFirstNonspaceIndex line) = [c]" and b: "charAt (trim line) 0 = [c]"
    and d: "isDigit c \<or> c = ch CHR ''+'' \<or> (c = ch CHR ''*'' \<and> trim line = [c])" by blast
  note r = list_item_line_recognizers(8) [OF a b d]
  obtain ls where "ntype p = Paragraph ls" using p(1) by (cases "ntype p") (auto simp: isParagraph_def)
  then show ?thesis
    unfolding parseLine_def
    by (subst descendOpenBlocks.simps)
       (simp add: p r openBlocks_list_item_continues_paragraph [OF assms])
qed

text \<open>
  Claim C6: when the deepest open node is a paragraph, a line that parses as a list item
  opener whose content is empty, or as an ordered item opener whose value is not 1, opens
  no list and no list item: the raw line is appended to the open paragraph.

  What holds: the test of \<open>parseLine\<close> is on the last child of the container in which its
  second loop runs (\<open>openBlocks\<close>), and the branches for a table, a Setext heading and a
  thematic break come first. When that last child is an open paragraph \<open>p\<close> (in \<open>openBlocks\<close>
  for any container, in \<open>parseLine\<close> for the root) and the marker of the item is not \<open>-\<close>,
  the line as the loop has it (at the root, the raw line) is appended to \<open>p\<close>, whose end
  line becomes this line, and nothing else changes.
\<close>

theorem list_item_continues_paragraph:
  assumes "parseListItem line = Some (k, content, cols)"
    and "isLineEmpty content \<or> (case k of Ordered v d \<Rightarrow> v \<noteq> 1 | Unordered m \<Rightarrow> False)"
    and "k \<noteq> Unordered (ch CHR ''-'')"
    and "isParagraph p" and "\<not> isClosed p"
  shows "openBlocks E li (pre @ [p]) line refs = Some (pre @ [appendParagraphLine li line p], refs)
    \<and> parseLine E li (pre @ [p]) line refs = Some (pre @ [appendParagraphLine li line p], refs)"
  using openBlocks_list_item_continues_paragraph [OF assms]
    parseLine_list_item_continues_paragraph [OF assms]
  by simp

theorem list_item_continues_paragraph_witness:
  "parseListItem (js ''2. bar'') = Some (Ordered 2 (ch CHR ''.''), js ''bar'', 3)
   \<and> isParagraph (Node (Paragraph [js ''foo'']) [] False 0 0)
   \<and> \<not> isClosed (Node (Paragraph [js ''foo'']) [] False 0 0)
   \<and> (\<forall>E. parseLine E 1 [Node (Paragraph [js ''foo'']) [] False 0 0] (js ''2. bar'') Map.empty
         = Some ([Node (Paragraph [js ''foo'', js ''2. bar'']) [] False 0 1], Map.empty))"
proof -
  let ?p = "Node (Paragraph [js ''foo'']) [] False 0 0"
  have h: "parseListItem (js ''2. bar'') = Some (Ordered 2 (ch CHR ''.''), js ''bar'', 3)"
    by (simp add: string_defs classifier_defs Let_def)
  have c: "isLineEmpty (js ''bar'') \<or> (case Ordered 2 (ch CHR ''.'') of Ordered v d \<Rightarrow> v \<noteq> 1 | Unordered m \<Rightarrow> False)"
    "Ordered 2 (ch CHR ''.'') \<noteq> Unordered (ch CHR ''-'')" "isParagraph ?p" "\<not> isClosed ?p"
    by (simp_all add: isParagraph_def)
  have "parseLine E 1 ([] @ [?p]) (js ''2. bar'') Map.empty
         = Some ([] @ [appendParagraphLine 1 (js ''2. bar'') ?p], Map.empty)" for E
    using list_item_continues_paragraph [OF h c, where pre = "[]" and li = 1 and refs = Map.empty and E = E]
    by simp
  then show ?thesis using h c(3,4)
    by (simp add: appendParagraphLine_def setEndLineIndex_def setType_def)
qed

text \<open>
  The claim itself fails in two ways. With the paragraph \<open>foo\<close> open in an open block quote,
  the paragraph is the deepest open node; the line \<open>2. bar\<close> is an ordered item of value 2,
  has no block quote marker, and opens a list after the block quote, which it closes.
  With the paragraph \<open>foo\<close> open at the root, the line \<open>-\<close> is a list item opener whose
  content is empty; the branch for a Setext heading takes it first and the paragraph
  becomes a heading of level 2.
\<close>

theorem list_item_interrupts_counterexample:
  "parseListItem (js ''2. bar'') = Some (Ordered 2 (ch CHR ''.''), js ''bar'', 3)
   \<and> getDeepestOpenNodeOnRightmostPath
        [Node Blockquote [Node (Paragraph [js ''foo'']) [] False 0 0] False 0 0]
       = Some (Node (Paragraph [js ''foo'']) [] False 0 0)
   \<and> (\<forall>E. parseLine E 1 [Node Blockquote [Node (Paragraph [js ''foo'']) [] False 0 0] False 0 0]
               (js ''2. bar'') Map.empty
         = Some ([Node Blockquote [Node (Paragraph [js ''foo'']) [] True 0 0] True 0 0,
                  Node (ListBlock (Ordered 2 (ch CHR ''.'')) 3 True)
                    [Node ListItem [Node (Paragraph [js ''bar'']) [] False 1 1] False 1 1] False 1 1],
                 Map.empty))
   \<and> parseListItem (js ''-'') = Some (Unordered (ch CHR ''-''), [], 2)
   \<and> (\<forall>E. parseLine E 1 [Node (Paragraph [js ''foo'']) [] False 0 0] (js ''-'') Map.empty
         = Some ([Node (Heading 2 (js ''foo'')) [] True 0 1], Map.empty))"
  by (simp add: string_defs classifier_defs reference_defs tree_defs Let_def)

section \<open>Properties of the reference store\<close>

lemma collapseWhiteSpace_plain:
  "list_all (\<lambda>c. \<not> isJsWhiteSpace c) s \<Longrightarrow> collapseWhiteSpace s = s"
  by (induction s) auto





lemma parseLinkReferenceDefinition_label:
  "parseLinkReferenceDefinition E lines = Some (Some ((label, href, title), rest))
   \<Longrightarrow> \<exists>raw. label = normalizeReference E raw"
  unfolding parseLinkReferenceDefinition_def Let_def
  by (simp split: list.splits option.splits if_splits prod.splits) blast+


























text \<open>
  The order of the reads depends on the calls. In one call on the five lines
  \<open>[a]: /one\<close>, blank, \<open>[a]: /two\<close>, \<open>x\<close>, \<open>===\<close> the Setext heading branch reads the second
  definition while the lines are parsed, before the sweep at the end of the call reads
  the first one: \<open>/two\<close> is stored. In two calls, the first on the first two lines with
  \<open>stream\<close> true, the sweep of the first call reads the first definition first: \<open>/one\<close> is
  stored.
\<close>

lemma reference_store_write_order_example:
  "\<forall>E. map_option (\<lambda>r. referenceDefinitions (snd r))
          (parseInternal E (js ''[a]: /one'' @ [LF, LF] @ js ''[a]: /two'' @ [LF] @ js ''x'' @ [LF] @ js ''==='')
             False newMarkdownParser)
        = Some [normalizeReference E (js ''a'') \<mapsto> (js ''/two'', None)]
      \<and> (case parseInternal E (js ''[a]: /one'' @ [LF, LF]) True newMarkdownParser of
            None \<Rightarrow> None
          | Some (out, p1) \<Rightarrow>
              map_option (\<lambda>r. referenceDefinitions (snd r))
                (parseInternal E (js ''[a]: /two'' @ [LF] @ js ''x'' @ [LF] @ js ''==='') False p1))
        = Some [normalizeReference E (js ''a'') \<mapsto> (js ''/one'', None)]"
  by (simp add: string_defs classifier_defs reference_defs tree_defs parse_defs Let_def)

section \<open>Properties of the order of the returned blocks\<close>



definition frame :: "node list \<Rightarrow> node list \<Rightarrow> bool" where
  "frame cs cs' = (\<exists>new. cs' = takeWhile isClosed cs @ new \<and> list_all isClosed (butlast new))"




lemma isClosed_closeOpenChain [simp]: "isClosed (closeOpenChain n)"
  by (subst closeOpenChain.simps) (simp add: Let_def)












lemma frame_closed_prefix:
  assumes "frame cs cs'"
  shows "length (takeWhile isClosed cs) \<le> length (takeWhile isClosed cs')"
proof -
  from assms obtain new where n: "cs' = takeWhile isClosed cs @ new" by (auto simp: frame_def)
  have "takeWhile isClosed cs' = takeWhile isClosed cs @ takeWhile isClosed new"
    unfolding n by (rule takeWhile_append2) (meson set_takeWhileD)
  then show ?thesis by simp
qed























declare parseReferenceLinkDefinitions.simps [simp del] parseReferenceLinkDefinitionsItems.simps [simp del]



definition stable :: "env \<Rightarrow> node \<Rightarrow> bool" where
  "stable E a = (isClosed a \<and> (\<forall>r. parseReferenceLinkDefinitions E [a] r = Some ([a], r)))"

lemma stable_closed: "stable E a \<Longrightarrow> isClosed a"
  by (simp add: stable_def)















lemma list_all_takeWhile_Cons:
  "isClosed b \<Longrightarrow> stable E b \<Longrightarrow> list_all (stable E) (takeWhile isClosed rest)
   \<Longrightarrow> list_all (stable E) (takeWhile isClosed (b # rest))"
  by simp









lemma list_all_takeWhile: "list_all P (takeWhile P xs)"
  by (simp add: list_all_iff) (meson set_takeWhileD)










end
